theory Spec2Isabelle
  imports Main
begin

section \<open>Module search path computation of \<^verbatim>\<open>Modules/getpath.c\<close>\<close>

text \<open>
  A shallow embedding of the POSIX path computation (the \<^verbatim>\<open>__APPLE__\<close>,
  \<^verbatim>\<open>__CYGWIN__\<close>/\<^verbatim>\<open>__MINGW32__\<close> and \<^verbatim>\<open>WITH_NEXT_FRAMEWORK\<close> branches are
  compiled out). A \<^verbatim>\<open>wchar_t\<close> string is the list of its characters up to, and without, the
  terminating NUL. A buffer of \<open>n\<close> characters therefore holds strings of length \<open>< n\<close>.
\<close>

subsection \<open>Characters and status values\<close>

text \<open>\<^verbatim>\<open>SEP\<close> and \<^verbatim>\<open>DELIM\<close> of \<^verbatim>\<open>osdefs.h\<close> on POSIX; \<open>NUL\<close> is \<^verbatim>\<open>L'\0'\<close>.\<close>

definition SEP :: char where
  "SEP = CHR ''/''"

definition DELIM :: char where
  "DELIM = CHR '':''"

definition NUL :: char where
  "NUL = CHR 0x00"

text \<open>\<^verbatim>\<open>dir[i]\<close> for \<open>i \<le> wcslen(dir)\<close>: the terminator is read at \<open>i = wcslen(dir)\<close>.\<close>

definition wchar_at :: "string \<Rightarrow> nat \<Rightarrow> char" where
  "wchar_at s i = (if i < length s then s ! i else NUL)"

text \<open>
  A \<^verbatim>\<open>PyStatus\<close> that is an exception: \<^verbatim>\<open>_PyStatus_ERR(msg)\<close> or
  \<^verbatim>\<open>_PyStatus_NO_MEMORY()\<close>. A function returning \<^verbatim>\<open>PyStatus\<close> returns \<open>Inl\<close> of
  the exception, or \<open>Inr\<close> of what it wrote through its output parameters.
\<close>

datatype PyStatus_exc = PyStatus_ERR string | PyStatus_NO_MEMORY

definition PATHLEN_ERR :: PyStatus_exc where
  "PATHLEN_ERR = PyStatus_ERR ''path configuration: path too long''"

text \<open>
  Modelled from the spec: \<^verbatim>\<open>_Py_isabs\<close> lives in \<^verbatim>\<open>fileutils.c\<close>; a path is absolute
  when it starts with the separator.
\<close>

definition Py_isabs :: "string \<Rightarrow> bool" where
  "Py_isabs path = (wchar_at path 0 = SEP)"

subsection \<open>Bounded path buffer primitives\<close>

text \<open>
  \<^verbatim>\<open>reduce\<close>: \<open>i\<close> starts at \<^verbatim>\<open>wcslen(dir)\<close> and walks down while \<open>i > 0\<close> and
  \<^verbatim>\<open>dir[i] != SEP\<close>; then \<^verbatim>\<open>dir[i] = '\0'\<close>.
\<close>

fun reduce_scan :: "string \<Rightarrow> nat \<Rightarrow> nat" where
  "reduce_scan dir 0 = 0"
| "reduce_scan dir (Suc i) =
     (if wchar_at dir (Suc i) \<noteq> SEP then reduce_scan dir i else Suc i)"

definition reduce :: "string \<Rightarrow> string" where
  "reduce dir = take (reduce_scan dir (length dir)) dir"

text \<open>
  \<^verbatim>\<open>joinpath(path, path2, path_len)\<close>. On an error the buffer is not used again by any
  caller but \<^verbatim>\<open>resolve_symlinks\<close>, which is modelled with the buffer it leaves.
\<close>

definition joinpath :: "string \<Rightarrow> string \<Rightarrow> nat \<Rightarrow> PyStatus_exc + string" where
  "joinpath path path2 path_len =
     (if \<not> Py_isabs path2 then
        (let n = length path in
         if n \<ge> path_len then Inl PATHLEN_ERR
         else
           (let path' = (if n > 0 \<and> path ! (n - 1) \<noteq> SEP then path @ [SEP] else path);
                n' = length path';
                k = length path2
            in if n' + k \<ge> path_len then Inl PATHLEN_ERR else Inr (path' @ path2)))
      else
        (let k = length path2
         in if 0 + k \<ge> path_len then Inl PATHLEN_ERR else Inr path2))"

text \<open>
  \<^verbatim>\<open>safe_wcscpy(dst, src, n)\<close>: the return code and the string left in \<open>dst\<close>.
\<close>

definition safe_wcscpy :: "string \<Rightarrow> nat \<Rightarrow> int \<times> string" where
  "safe_wcscpy src n =
     (let srclen = length src
      in if n \<le> srclen then (- 1, []) else (0, src))"

text \<open>
  \<^verbatim>\<open>wcschr(s, c)\<close>: the offset of the first \<open>c\<close> in \<open>s\<close>, or \<open>None\<close> for \<^verbatim>\<open>NULL\<close>.
\<close>

definition wcschr :: "string \<Rightarrow> char \<Rightarrow> nat option" where
  "wcschr s c = (if c \<in> set s then Some (length (takeWhile (\<lambda>x. x \<noteq> c) s)) else None)"

subsection \<open>The operating system and the build\<close>

text \<open>
  What the computation reads from outside. \<open>wstat\<close> is \<^verbatim>\<open>_Py_wstat\<close> (\<open>None\<close> when it
  returns non-zero), \<open>wreadlink\<close> the target of a symbolic link (\<open>None\<close> when
  \<^verbatim>\<open>_Py_wreadlink\<close> returns \<open>-1\<close>), \<open>wfopen\<close> the content of a file that
  \<^verbatim>\<open>_Py_wfopen\<close> opens, \<open>wgetcwd\<close> the working directory, \<open>FindEnvConfigValue\<close> the value
  that \<^verbatim>\<open>_Py_FindEnvConfigValue\<close> finds for a key in an open file (given the size of the
  buffer it writes to), \<open>DecodeUTF8\<close> the result
  of \<^verbatim>\<open>_Py_DecodeUTF8_surrogateescape\<close>, and \<open>RawMalloc_ok\<close> whether the raw allocator
  serves a request of that many characters.
\<close>

datatype file_kind = Regular | Directory | Other_kind

record stat_buf =
  st_kind :: file_kind
  st_mode_0111 :: bool

datatype decode_result = Decoded string | Decode_error | Decode_no_memory

record world =
  wstat :: "string \<Rightarrow> stat_buf option"
  wreadlink :: "string \<Rightarrow> string option"
  wfopen :: "string \<Rightarrow> string option"
  wgetcwd :: "string option"
  FindEnvConfigValue :: "string \<Rightarrow> string \<Rightarrow> nat \<Rightarrow> string option"
  DecodeUTF8 :: "string \<Rightarrow> decode_result"
  RawMalloc_ok :: "nat \<Rightarrow> bool"

text \<open>
  The macros that \<^verbatim>\<open>getpath.c\<close> takes from the build: \<^verbatim>\<open>MAXPATHLEN\<close>, \<^verbatim>\<open>VERSION\<close>
  (\<^verbatim>\<open>"X.Y"\<close>) and \<^verbatim>\<open>VPATH\<close> as \<^verbatim>\<open>Py_DecodeLocale\<close> returns it (\<open>None\<close> for
  \<^verbatim>\<open>NULL\<close>). \<^verbatim>\<open>LANDMARK\<close> is defined in the file itself.
\<close>

record build =
  MAXPATHLEN :: nat
  VERSION :: string
  VPATH :: "string option"

definition LANDMARK :: string where
  "LANDMARK = ''os.py''"

text \<open>
  The system calls and the writes to \<^verbatim>\<open>stderr\<close> of a run, in the order they happen. Every
  function that makes one takes the trace so far and returns it extended.
\<close>

datatype event =
    Ev_stat string
  | Ev_readlink string
  | Ev_fopen string
  | Ev_getcwd
  | Ev_stderr string

type_synonym trace = "event list"

text \<open>\<^verbatim>\<open>PyStatus\<close>: \<open>None\<close> is \<^verbatim>\<open>_PyStatus_OK()\<close>.\<close>

type_synonym PyStatus = "PyStatus_exc option"

text \<open>\<^verbatim>\<open>PyCalculatePath\<close> and the fields of \<^verbatim>\<open>_PyPathConfig\<close> that the file uses.\<close>

record PyCalculatePath =
  c_path_env :: "string option"
  c_pythonpath :: string
  c_prefix :: string
  c_exec_prefix :: string
  c_lib_python :: string
  c_prefix_found :: int
  c_exec_prefix_found :: int
  c_warnings :: int
  c_pythonpath_env :: "string option"

record PyPathConfig =
  p_program_full_path :: "string option"
  p_prefix :: "string option"
  p_exec_prefix :: "string option"
  p_module_search_path :: "string option"
  p_program_name :: string
  p_home :: "string option"

text \<open>\<^verbatim>\<open>_PyMem_RawWcsdup\<close>: a copy, or \<open>None\<close> for \<^verbatim>\<open>NULL\<close>.\<close>

definition RawWcsdup :: "world \<Rightarrow> string \<Rightarrow> string option" where
  "RawWcsdup w s = (if RawMalloc_ok w (length s + 1) then Some s else None)"

subsection \<open>File status predicates\<close>

definition isfile :: "world \<Rightarrow> string \<Rightarrow> trace \<Rightarrow> bool \<times> trace" where
  "isfile w filename tr =
     (case wstat w filename of
        None \<Rightarrow> (False, tr @ [Ev_stat filename])
      | Some buf \<Rightarrow>
          if st_kind buf \<noteq> Regular then (False, tr @ [Ev_stat filename])
          else (True, tr @ [Ev_stat filename]))"

definition isxfile :: "world \<Rightarrow> string \<Rightarrow> trace \<Rightarrow> bool \<times> trace" where
  "isxfile w filename tr =
     (case wstat w filename of
        None \<Rightarrow> (False, tr @ [Ev_stat filename])
      | Some buf \<Rightarrow>
          if st_kind buf \<noteq> Regular then (False, tr @ [Ev_stat filename])
          else if \<not> st_mode_0111 buf then (False, tr @ [Ev_stat filename])
          else (True, tr @ [Ev_stat filename]))"

definition isdir :: "world \<Rightarrow> string \<Rightarrow> trace \<Rightarrow> bool \<times> trace" where
  "isdir w filename tr =
     (case wstat w filename of
        None \<Rightarrow> (False, tr @ [Ev_stat filename])
      | Some buf \<Rightarrow>
          if st_kind buf \<noteq> Directory then (False, tr @ [Ev_stat filename])
          else (True, tr @ [Ev_stat filename]))"

subsection \<open>Absolute paths\<close>

text \<open>
  Modelled from the spec: \<^verbatim>\<open>_Py_wgetcwd(buf, buflen)\<close> lives in \<^verbatim>\<open>fileutils.c\<close>; the
  working directory cannot be obtained when the system has none to give or it does not fit
  the buffer.
\<close>

definition Py_wgetcwd :: "world \<Rightarrow> nat \<Rightarrow> string option" where
  "Py_wgetcwd w buflen =
     (case wgetcwd w of
        None \<Rightarrow> None
      | Some cwd \<Rightarrow> if length cwd < buflen then Some cwd else None)"

definition copy_absolute ::
  "world \<Rightarrow> string \<Rightarrow> nat \<Rightarrow> trace \<Rightarrow> (PyStatus_exc + string) \<times> trace" where
  "copy_absolute w path abs_path_len tr =
     (if Py_isabs path then
        (case safe_wcscpy path abs_path_len of
           (rc, abs_path) \<Rightarrow> if rc < 0 then (Inl PATHLEN_ERR, tr) else (Inr abs_path, tr))
      else
        (case Py_wgetcwd w abs_path_len of
           None \<Rightarrow>
             (case safe_wcscpy path abs_path_len of
                (rc, abs_path) \<Rightarrow>
                  if rc < 0 then (Inl PATHLEN_ERR, tr @ [Ev_getcwd])
                  else (Inr abs_path, tr @ [Ev_getcwd]))
         | Some abs_path \<Rightarrow>
             (let path' =
                (if wchar_at path 0 = CHR ''.'' \<and> wchar_at path 1 = SEP then drop 2 path
                 else path)
              in (joinpath abs_path path' abs_path_len, tr @ [Ev_getcwd]))))"

definition absolutize ::
  "build \<Rightarrow> world \<Rightarrow> string \<Rightarrow> nat \<Rightarrow> trace \<Rightarrow> (PyStatus_exc + string) \<times> trace" where
  "absolutize b w path path_len tr =
     (if Py_isabs path then (Inr path, tr)
      else
        (case copy_absolute w path (MAXPATHLEN b + 1) tr of
           (Inl status, tr1) \<Rightarrow> (Inl status, tr1)
         | (Inr abs_path, tr1) \<Rightarrow>
             (case safe_wcscpy abs_path path_len of
                (rc, path') \<Rightarrow>
                  if rc < 0 then (Inl PATHLEN_ERR, tr1) else (Inr path', tr1))))"

subsection \<open>The landmark test\<close>

text \<open>
  \<^verbatim>\<open>ismodule(path, &result)\<close>: the landmark, then the landmark with \<^verbatim>\<open>"c"\<close> appended
  when the buffer has room for it.
\<close>

definition ismodule ::
  "build \<Rightarrow> world \<Rightarrow> string \<Rightarrow> trace \<Rightarrow> (PyStatus_exc + bool) \<times> trace" where
  "ismodule b w path tr =
     (let filename_len = MAXPATHLEN b + 1
      in case safe_wcscpy path filename_len of
           (rc, filename) \<Rightarrow>
             if rc < 0 then (Inl PATHLEN_ERR, tr)
             else
               (case joinpath filename LANDMARK filename_len of
                  Inl status \<Rightarrow> (Inl status, tr)
                | Inr filename \<Rightarrow>
                    (case isfile w filename tr of
                       (True, tr1) \<Rightarrow> (Inr True, tr1)
                     | (False, tr1) \<Rightarrow>
                         if length filename + 2 \<le> filename_len then
                           (case isfile w (filename @ ''c'') tr1 of
                              (True, tr2) \<Rightarrow> (Inr True, tr2)
                            | (False, tr2) \<Rightarrow> (Inr False, tr2))
                         else (Inr False, tr1))))"

subsection \<open>The search for the prefix\<close>

text \<open>
  \<^verbatim>\<open>search_for_prefix\<close> in the four parts of its body. Each returns what it wrote to
  \<^verbatim>\<open>prefix\<close> and \<^verbatim>\<open>*found\<close>, or \<open>None\<close> when the function goes on to the next part.
  First part: \<^verbatim>\<open>pathconfig->home\<close> is set.
\<close>

definition search_for_prefix_home ::
  "PyCalculatePath \<Rightarrow> string \<Rightarrow> nat \<Rightarrow> PyStatus_exc + string \<times> int" where
  "search_for_prefix_home calculate home prefix_len =
     (case safe_wcscpy home prefix_len of
        (rc, prefix) \<Rightarrow>
          if rc < 0 then Inl PATHLEN_ERR
          else
            (let prefix' = (case wcschr prefix DELIM of
                              Some delim \<Rightarrow> take delim prefix
                            | None \<Rightarrow> prefix)
             in case joinpath prefix' (c_lib_python calculate) prefix_len of
                  Inl status \<Rightarrow> Inl status
                | Inr prefix'' \<Rightarrow> Inr (prefix'', 1)))"

text \<open>Second part: is \<^verbatim>\<open>argv[0]\<close> in the build directory?\<close>

definition search_for_prefix_build ::
  "build \<Rightarrow> world \<Rightarrow> string \<Rightarrow> nat \<Rightarrow> trace \<Rightarrow>
     (PyStatus_exc + (string \<times> int) option) \<times> trace" where
  "search_for_prefix_build b w argv0_path prefix_len tr =
     (let path_len = MAXPATHLEN b + 1
      in case safe_wcscpy argv0_path path_len of
           (rc, path) \<Rightarrow>
             if rc < 0 then (Inl PATHLEN_ERR, tr)
             else
               (case joinpath path ''Modules/Setup.local'' path_len of
                  Inl status \<Rightarrow> (Inl status, tr)
                | Inr path' \<Rightarrow>
                    (case isfile w path' tr of
                       (False, tr1) \<Rightarrow> (Inr None, tr1)
                     | (True, tr1) \<Rightarrow>
                         (case VPATH b of
                            None \<Rightarrow> (Inr None, tr1)
                          | Some vpath \<Rightarrow>
                              (case safe_wcscpy argv0_path prefix_len of
                                 (rc', prefix) \<Rightarrow>
                                   if rc' < 0 then (Inl PATHLEN_ERR, tr1)
                                   else
                                     (case joinpath prefix vpath prefix_len of
                                        Inl status \<Rightarrow> (Inl status, tr1)
                                      | Inr prefix' \<Rightarrow>
                                          (case joinpath prefix' ''Lib'' prefix_len of
                                             Inl status \<Rightarrow> (Inl status, tr1)
                                           | Inr prefix'' \<Rightarrow>
                                               (case ismodule b w prefix'' tr1 of
                                                  (Inl status, tr2) \<Rightarrow> (Inl status, tr2)
                                                | (Inr True, tr2) \<Rightarrow>
                                                    (Inr (Some (prefix'', - 1)), tr2)
                                                | (Inr False, tr2) \<Rightarrow>
                                                    (Inr None, tr2)))))))))"

text \<open>
  Third part, the \<^verbatim>\<open>do ... while (prefix[0])\<close> loop: \<open>n\<close> is the length before the join,
  \<^verbatim>\<open>prefix[n] = L'\0'\<close> cuts the joined string back to \<open>n\<close> characters, and the loop goes
  round again while the reduced string is not empty.
\<close>

function search_for_prefix_walk ::
  "build \<Rightarrow> PyCalculatePath \<Rightarrow> world \<Rightarrow> string \<Rightarrow> nat \<Rightarrow> trace \<Rightarrow>
     (PyStatus_exc + (string \<times> int) option) \<times> trace" where
  "search_for_prefix_walk b calculate w prefix prefix_len tr =
     (let n = length prefix
      in case joinpath prefix (c_lib_python calculate) prefix_len of
           Inl status \<Rightarrow> (Inl status, tr)
         | Inr joined \<Rightarrow>
             (case ismodule b w joined tr of
                (Inl status, tr1) \<Rightarrow> (Inl status, tr1)
              | (Inr True, tr1) \<Rightarrow> (Inr (Some (joined, 1)), tr1)
              | (Inr False, tr1) \<Rightarrow>
                  (let prefix' = reduce (take n joined)
                   in if prefix' \<noteq> [] then
                        search_for_prefix_walk b calculate w prefix' prefix_len tr1
                      else (Inr None, tr1))))"
  by pat_completeness auto
termination
proof (relation "measure (\<lambda>(b, calculate, w, prefix, prefix_len, tr). length prefix)")
  show "wf (measure (\<lambda>(b, calculate, w, prefix, prefix_len, tr). length prefix))"
    by simp
next
  fix b :: build and calculate :: PyCalculatePath and w :: world and prefix :: string
    and prefix_len :: nat and tr :: trace and n :: nat and joined :: string
    and prefix' :: string
  assume n: "n = length prefix" and p: "prefix' = reduce (take n joined)"
    and ne: "prefix' \<noteq> []"
  have scan: "reduce_scan d i \<le> i" for d i
    by (induction i) auto
  have "length (reduce d) < length d" if "reduce d \<noteq> []" for d
  proof (cases "length d")
    case 0
    with that show ?thesis by (simp add: reduce_def)
  next
    case (Suc m)
    have "reduce_scan d (Suc m) = reduce_scan d m"
      using Suc by (simp add: wchar_at_def SEP_def NUL_def)
    with scan [of d m] Suc show ?thesis by (simp add: reduce_def)
  qed
  from this [of "take n joined"] p ne have "length prefix' < length (take n joined)"
    by simp
  with n
  show "((b, calculate, w, prefix', prefix_len, tr1), b, calculate, w, prefix, prefix_len, tr)
          \<in> measure (\<lambda>(b, calculate, w, prefix, prefix_len, tr). length prefix)" for tr1
    by simp
qed

text \<open>Fourth part: configure's \<^verbatim>\<open>PREFIX\<close>.\<close>

definition search_for_prefix_default ::
  "build \<Rightarrow> PyCalculatePath \<Rightarrow> world \<Rightarrow> nat \<Rightarrow> trace \<Rightarrow>
     (PyStatus_exc + string \<times> int) \<times> trace" where
  "search_for_prefix_default b calculate w prefix_len tr =
     (case safe_wcscpy (c_prefix calculate) prefix_len of
        (rc, prefix) \<Rightarrow>
          if rc < 0 then (Inl PATHLEN_ERR, tr)
          else
            (case joinpath prefix (c_lib_python calculate) prefix_len of
               Inl status \<Rightarrow> (Inl status, tr)
             | Inr prefix' \<Rightarrow>
                 (case ismodule b w prefix' tr of
                    (Inl status, tr1) \<Rightarrow> (Inl status, tr1)
                  | (Inr True, tr1) \<Rightarrow> (Inr (prefix', 1), tr1)
                  | (Inr False, tr1) \<Rightarrow> (Inr (prefix', 0), tr1))))"

definition search_for_prefix ::
  "build \<Rightarrow> PyCalculatePath \<Rightarrow> PyPathConfig \<Rightarrow> world \<Rightarrow> string \<Rightarrow> nat \<Rightarrow> trace \<Rightarrow>
     (PyStatus_exc + string \<times> int) \<times> trace" where
  "search_for_prefix b calculate pathconfig w argv0_path prefix_len tr =
     (case p_home pathconfig of
        Some home \<Rightarrow> (search_for_prefix_home calculate home prefix_len, tr)
      | None \<Rightarrow>
          (case search_for_prefix_build b w argv0_path prefix_len tr of
             (Inl status, tr1) \<Rightarrow> (Inl status, tr1)
           | (Inr (Some r), tr1) \<Rightarrow> (Inr r, tr1)
           | (Inr None, tr1) \<Rightarrow>
               (case copy_absolute w argv0_path prefix_len tr1 of
                  (Inl status, tr2) \<Rightarrow> (Inl status, tr2)
                | (Inr prefix, tr2) \<Rightarrow>
                    (case search_for_prefix_walk b calculate w prefix prefix_len tr2 of
                       (Inl status, tr3) \<Rightarrow> (Inl status, tr3)
                     | (Inr (Some r), tr3) \<Rightarrow> (Inr r, tr3)
                     | (Inr None, tr3) \<Rightarrow>
                         search_for_prefix_default b calculate w prefix_len tr3))))"

text \<open>
  \<^verbatim>\<open>calculate_prefix\<close>: the search stores \<^verbatim>\<open>*found\<close> in \<^verbatim>\<open>calculate->prefix_found\<close>.
\<close>

definition calculate_prefix ::
  "build \<Rightarrow> PyCalculatePath \<Rightarrow> PyPathConfig \<Rightarrow> world \<Rightarrow> string \<Rightarrow> nat \<Rightarrow> trace \<Rightarrow>
     (PyStatus_exc + string \<times> PyCalculatePath) \<times> trace" where
  "calculate_prefix b calculate pathconfig w argv0_path prefix_len tr =
     (case search_for_prefix b calculate pathconfig w argv0_path prefix_len tr of
        (Inl status, tr1) \<Rightarrow> (Inl status, tr1)
      | (Inr (prefix, found), tr1) \<Rightarrow>
          (let calculate' = calculate\<lparr>c_prefix_found := found\<rparr>
           in if c_prefix_found calculate' = 0 then
                (let tr2 =
                   (if c_warnings calculate' \<noteq> 0 then
                      tr1 @ [Ev_stderr
                        (''Could not find platform independent libraries <prefix>'' @ [CHR 0x0A])]
                    else tr1)
                 in case safe_wcscpy (c_prefix calculate') prefix_len of
                      (rc, prefix') \<Rightarrow>
                        if rc < 0 then (Inl PATHLEN_ERR, tr2)
                        else
                          (case joinpath prefix' (c_lib_python calculate') prefix_len of
                             Inl status \<Rightarrow> (Inl status, tr2)
                           | Inr prefix'' \<Rightarrow> (Inr (prefix'', calculate'), tr2)))
              else (Inr (prefix, calculate'), tr1)))"

text \<open>
  \<^verbatim>\<open>calculate_set_prefix\<close>: the status and the \<^verbatim>\<open>pathconfig\<close> it leaves.
\<close>

definition calculate_set_prefix ::
  "PyCalculatePath \<Rightarrow> PyPathConfig \<Rightarrow> world \<Rightarrow> string \<Rightarrow> PyStatus \<times> PyPathConfig" where
  "calculate_set_prefix calculate pathconfig w prefix =
     (let pathconfig' =
        (if c_prefix_found calculate > 0 then
           (let prefix' = reduce (reduce prefix);
                prefix'' = (if prefix' = [] then [SEP] else prefix')
            in pathconfig\<lparr>p_prefix := RawWcsdup w prefix''\<rparr>)
         else pathconfig\<lparr>p_prefix := RawWcsdup w (c_prefix calculate)\<rparr>)
      in if p_prefix pathconfig' = None then (Some PyStatus_NO_MEMORY, pathconfig')
         else (None, pathconfig'))"

subsection \<open>The search for the exec-prefix\<close>

text \<open>
  \<^verbatim>\<open>calculate_pybuilddir\<close>: \<open>Some\<close> of the new \<^verbatim>\<open>exec_prefix\<close> when it sets
  \<^verbatim>\<open>*found = -1\<close>. \<^verbatim>\<open>fread\<close> takes at most \<^verbatim>\<open>MAXPATHLEN\<close> bytes of the file.
\<close>

definition calculate_pybuilddir ::
  "build \<Rightarrow> world \<Rightarrow> string \<Rightarrow> nat \<Rightarrow> trace \<Rightarrow>
     (PyStatus_exc + (string \<times> int) option) \<times> trace" where
  "calculate_pybuilddir b w argv0_path exec_prefix_len tr =
     (let filename_len = MAXPATHLEN b + 1
      in case safe_wcscpy argv0_path filename_len of
           (rc, filename) \<Rightarrow>
             if rc < 0 then (Inl PATHLEN_ERR, tr)
             else
               (case joinpath filename ''pybuilddir.txt'' filename_len of
                  Inl status \<Rightarrow> (Inl status, tr)
                | Inr filename' \<Rightarrow>
                    (case isfile w filename' tr of
                       (False, tr1) \<Rightarrow> (Inr None, tr1)
                     | (True, tr1) \<Rightarrow>
                         (case wfopen w filename' of
                            None \<Rightarrow> (Inr None, tr1 @ [Ev_fopen filename'])
                          | Some content \<Rightarrow>
                              (let tr2 = tr1 @ [Ev_fopen filename'];
                                   buf = take (MAXPATHLEN b) content
                               in case DecodeUTF8 w buf of
                                    Decode_error \<Rightarrow>
                                      (Inl (PyStatus_ERR ''cannot decode pybuilddir.txt''), tr2)
                                  | Decode_no_memory \<Rightarrow> (Inl PyStatus_NO_MEMORY, tr2)
                                  | Decoded pybuilddir \<Rightarrow>
                                      (case safe_wcscpy argv0_path exec_prefix_len of
                                         (rc', exec_prefix) \<Rightarrow>
                                           if rc' < 0 then (Inl PATHLEN_ERR, tr2)
                                           else
                                             (case joinpath exec_prefix pybuilddir
                                                     exec_prefix_len of
                                                Inl status \<Rightarrow> (Inl status, tr2)
                                              | Inr exec_prefix' \<Rightarrow>
                                                  (Inr (Some (exec_prefix', - 1)), tr2))))))))"

definition search_for_exec_prefix_home ::
  "PyCalculatePath \<Rightarrow> string \<Rightarrow> nat \<Rightarrow> PyStatus_exc + string \<times> int" where
  "search_for_exec_prefix_home calculate home exec_prefix_len =
     (case safe_wcscpy
             (case wcschr home DELIM of
                Some delim \<Rightarrow> drop (delim + 1) home
              | None \<Rightarrow> home)
             exec_prefix_len of
        (rc, exec_prefix) \<Rightarrow>
          if rc < 0 then Inl PATHLEN_ERR
          else
            (case joinpath exec_prefix (c_lib_python calculate) exec_prefix_len of
               Inl status \<Rightarrow> Inl status
             | Inr exec_prefix' \<Rightarrow>
                 (case joinpath exec_prefix' ''lib-dynload'' exec_prefix_len of
                    Inl status \<Rightarrow> Inl status
                  | Inr exec_prefix'' \<Rightarrow> Inr (exec_prefix'', 1))))"

function search_for_exec_prefix_walk ::
  "PyCalculatePath \<Rightarrow> world \<Rightarrow> string \<Rightarrow> nat \<Rightarrow> trace \<Rightarrow>
     (PyStatus_exc + (string \<times> int) option) \<times> trace" where
  "search_for_exec_prefix_walk calculate w exec_prefix exec_prefix_len tr =
     (let n = length exec_prefix
      in case joinpath exec_prefix (c_lib_python calculate) exec_prefix_len of
           Inl status \<Rightarrow> (Inl status, tr)
         | Inr joined \<Rightarrow>
             (case joinpath joined ''lib-dynload'' exec_prefix_len of
                Inl status \<Rightarrow> (Inl status, tr)
              | Inr joined' \<Rightarrow>
                  (case isdir w joined' tr of
                     (True, tr1) \<Rightarrow> (Inr (Some (joined', 1)), tr1)
                   | (False, tr1) \<Rightarrow>
                       (let exec_prefix' = reduce (take n joined')
                        in if exec_prefix' \<noteq> [] then
                             search_for_exec_prefix_walk calculate w exec_prefix'
                               exec_prefix_len tr1
                           else (Inr None, tr1)))))"
  by pat_completeness auto
termination
proof (relation "measure (\<lambda>(calculate, w, exec_prefix, exec_prefix_len, tr). length exec_prefix)")
  show "wf (measure (\<lambda>(calculate, w, exec_prefix, exec_prefix_len, tr). length exec_prefix))"
    by simp
next
  fix calculate :: PyCalculatePath and w :: world and exec_prefix :: string
    and exec_prefix_len :: nat and tr :: trace and n :: nat and joined' :: string
    and exec_prefix' :: string
  assume n: "n = length exec_prefix" and p: "exec_prefix' = reduce (take n joined')"
    and ne: "exec_prefix' \<noteq> []"
  have scan: "reduce_scan d i \<le> i" for d i
    by (induction i) auto
  have "length (reduce d) < length d" if "reduce d \<noteq> []" for d
  proof (cases "length d")
    case 0
    with that show ?thesis by (simp add: reduce_def)
  next
    case (Suc m)
    have "reduce_scan d (Suc m) = reduce_scan d m"
      using Suc by (simp add: wchar_at_def SEP_def NUL_def)
    with scan [of d m] Suc show ?thesis by (simp add: reduce_def)
  qed
  from this [of "take n joined'"] p ne have "length exec_prefix' < length (take n joined')"
    by simp
  with n
  show "((calculate, w, exec_prefix', exec_prefix_len, tr1),
          calculate, w, exec_prefix, exec_prefix_len, tr)
          \<in> measure (\<lambda>(calculate, w, exec_prefix, exec_prefix_len, tr). length exec_prefix)"
    for tr1
    by simp
qed

definition search_for_exec_prefix_default ::
  "PyCalculatePath \<Rightarrow> world \<Rightarrow> nat \<Rightarrow> trace \<Rightarrow> (PyStatus_exc + string \<times> int) \<times> trace" where
  "search_for_exec_prefix_default calculate w exec_prefix_len tr =
     (case safe_wcscpy (c_exec_prefix calculate) exec_prefix_len of
        (rc, exec_prefix) \<Rightarrow>
          if rc < 0 then (Inl PATHLEN_ERR, tr)
          else
            (case joinpath exec_prefix (c_lib_python calculate) exec_prefix_len of
               Inl status \<Rightarrow> (Inl status, tr)
             | Inr exec_prefix' \<Rightarrow>
                 (case joinpath exec_prefix' ''lib-dynload'' exec_prefix_len of
                    Inl status \<Rightarrow> (Inl status, tr)
                  | Inr exec_prefix'' \<Rightarrow>
                      (case isdir w exec_prefix'' tr of
                         (True, tr1) \<Rightarrow> (Inr (exec_prefix'', 1), tr1)
                       | (False, tr1) \<Rightarrow> (Inr (exec_prefix'', 0), tr1)))))"

text \<open>
  \<^verbatim>\<open>search_for_exec_prefix\<close>. Its \<^verbatim>\<open>assert(*found == 0)\<close> holds in every call: the only
  caller passes \<^verbatim>\<open>calculate->exec_prefix_found\<close> of a structure that
  \<^verbatim>\<open>_PyPathConfig_Calculate\<close> has just zeroed.
\<close>

definition search_for_exec_prefix ::
  "build \<Rightarrow> PyCalculatePath \<Rightarrow> PyPathConfig \<Rightarrow> world \<Rightarrow> string \<Rightarrow> nat \<Rightarrow> trace \<Rightarrow>
     (PyStatus_exc + string \<times> int) \<times> trace" where
  "search_for_exec_prefix b calculate pathconfig w argv0_path exec_prefix_len tr =
     (case p_home pathconfig of
        Some home \<Rightarrow> (search_for_exec_prefix_home calculate home exec_prefix_len, tr)
      | None \<Rightarrow>
          (case calculate_pybuilddir b w argv0_path exec_prefix_len tr of
             (Inl status, tr1) \<Rightarrow> (Inl status, tr1)
           | (Inr (Some r), tr1) \<Rightarrow> (Inr r, tr1)
           | (Inr None, tr1) \<Rightarrow>
               (case copy_absolute w argv0_path exec_prefix_len tr1 of
                  (Inl status, tr2) \<Rightarrow> (Inl status, tr2)
                | (Inr exec_prefix, tr2) \<Rightarrow>
                    (case search_for_exec_prefix_walk calculate w exec_prefix
                            exec_prefix_len tr2 of
                       (Inl status, tr3) \<Rightarrow> (Inl status, tr3)
                     | (Inr (Some r), tr3) \<Rightarrow> (Inr r, tr3)
                     | (Inr None, tr3) \<Rightarrow>
                         search_for_exec_prefix_default calculate w exec_prefix_len tr3))))"

definition calculate_exec_prefix ::
  "build \<Rightarrow> PyCalculatePath \<Rightarrow> PyPathConfig \<Rightarrow> world \<Rightarrow> string \<Rightarrow> nat \<Rightarrow> trace \<Rightarrow>
     (PyStatus_exc + string \<times> PyCalculatePath) \<times> trace" where
  "calculate_exec_prefix b calculate pathconfig w argv0_path exec_prefix_len tr =
     (case search_for_exec_prefix b calculate pathconfig w argv0_path exec_prefix_len tr of
        (Inl status, tr1) \<Rightarrow> (Inl status, tr1)
      | (Inr (exec_prefix, found), tr1) \<Rightarrow>
          (let calculate' = calculate\<lparr>c_exec_prefix_found := found\<rparr>
           in if c_exec_prefix_found calculate' = 0 then
                (let tr2 =
                   (if c_warnings calculate' \<noteq> 0 then
                      tr1 @ [Ev_stderr
                        (''Could not find platform dependent libraries <exec_prefix>'' @ [CHR 0x0A])]
                    else tr1)
                 in case safe_wcscpy (c_exec_prefix calculate') exec_prefix_len of
                      (rc, exec_prefix') \<Rightarrow>
                        if rc < 0 then (Inl PATHLEN_ERR, tr2)
                        else
                          (case joinpath exec_prefix' ''lib/lib-dynload'' exec_prefix_len of
                             Inl status \<Rightarrow> (Inl status, tr2)
                           | Inr exec_prefix'' \<Rightarrow> (Inr (exec_prefix'', calculate'), tr2)))
              else (Inr (exec_prefix, calculate'), tr1)))"

definition calculate_set_exec_prefix ::
  "PyCalculatePath \<Rightarrow> PyPathConfig \<Rightarrow> world \<Rightarrow> string \<Rightarrow> PyStatus \<times> PyPathConfig" where
  "calculate_set_exec_prefix calculate pathconfig w exec_prefix =
     (let pathconfig' =
        (if c_exec_prefix_found calculate > 0 then
           (let exec_prefix' = reduce (reduce (reduce exec_prefix));
                exec_prefix'' = (if exec_prefix' = [] then [SEP] else exec_prefix')
            in pathconfig\<lparr>p_exec_prefix := RawWcsdup w exec_prefix''\<rparr>)
         else pathconfig\<lparr>p_exec_prefix := RawWcsdup w (c_exec_prefix calculate)\<rparr>)
      in if p_exec_prefix pathconfig' = None then (Some PyStatus_NO_MEMORY, pathconfig')
         else (None, pathconfig'))"

subsection \<open>The executable and its directory\<close>

text \<open>
  \<^verbatim>\<open>calculate_which\<close>: \<open>Some\<close> of \<^verbatim>\<open>fullpath\<close> when it sets \<^verbatim>\<open>*found = 1\<close>.
\<close>

function calculate_which ::
  "world \<Rightarrow> string \<Rightarrow> string \<Rightarrow> nat \<Rightarrow> trace \<Rightarrow> (PyStatus_exc + string option) \<times> trace" where
  "calculate_which w path_env program_name fullpath_len tr =
     (let delim = wcschr path_env DELIM
      in case (case delim of
                 Some len \<Rightarrow>
                   if len \<ge> fullpath_len then Inl PATHLEN_ERR else Inr (take len path_env)
               | None \<Rightarrow>
                   (case safe_wcscpy path_env fullpath_len of
                      (rc, fullpath) \<Rightarrow> if rc < 0 then Inl PATHLEN_ERR else Inr fullpath)) of
           Inl status \<Rightarrow> (Inl status, tr)
         | Inr fullpath \<Rightarrow>
             (case joinpath fullpath program_name fullpath_len of
                Inl status \<Rightarrow> (Inl status, tr)
              | Inr fullpath' \<Rightarrow>
                  (case isxfile w fullpath' tr of
                     (True, tr1) \<Rightarrow> (Inr (Some fullpath'), tr1)
                   | (False, tr1) \<Rightarrow>
                       (case delim of
                          None \<Rightarrow> (Inr None, tr1)
                        | Some d \<Rightarrow>
                            calculate_which w (drop (d + 1) path_env) program_name
                              fullpath_len tr1))))"
  by pat_completeness auto
termination
  by (relation "measure (\<lambda>(w, path_env, program_name, fullpath_len, tr). length path_env)")
    (auto simp: wcschr_def split: if_splits dest: length_pos_if_in_set)

definition calculate_program_impl ::
  "PyCalculatePath \<Rightarrow> PyPathConfig \<Rightarrow> world \<Rightarrow> nat \<Rightarrow> trace \<Rightarrow>
     (PyStatus_exc + string) \<times> trace" where
  "calculate_program_impl calculate pathconfig w fullpath_len tr =
     (if wcschr (p_program_name pathconfig) SEP \<noteq> None then
        (case safe_wcscpy (p_program_name pathconfig) fullpath_len of
           (rc, fullpath) \<Rightarrow> if rc < 0 then (Inl PATHLEN_ERR, tr) else (Inr fullpath, tr))
      else
        (case c_path_env calculate of
           Some path_env \<Rightarrow>
             (case calculate_which w path_env (p_program_name pathconfig) fullpath_len tr of
                (Inl status, tr1) \<Rightarrow> (Inl status, tr1)
              | (Inr (Some fullpath), tr1) \<Rightarrow> (Inr fullpath, tr1)
              | (Inr None, tr1) \<Rightarrow> (Inr [], tr1))
         | None \<Rightarrow> (Inr [], tr)))"

definition calculate_program ::
  "build \<Rightarrow> PyCalculatePath \<Rightarrow> PyPathConfig \<Rightarrow> world \<Rightarrow> trace \<Rightarrow>
     PyStatus \<times> PyPathConfig \<times> trace" where
  "calculate_program b calculate pathconfig w tr =
     (let program_full_path_len = MAXPATHLEN b + 1
      in case calculate_program_impl calculate pathconfig w program_full_path_len tr of
           (Inl status, tr1) \<Rightarrow> (Some status, pathconfig, tr1)
         | (Inr program_full_path, tr1) \<Rightarrow>
             (case (if program_full_path \<noteq> [] \<and> \<not> Py_isabs program_full_path then
                      absolutize b w program_full_path program_full_path_len tr1
                    else (Inr program_full_path, tr1)) of
                (Inl status, tr2) \<Rightarrow> (Some status, pathconfig, tr2)
              | (Inr program_full_path', tr2) \<Rightarrow>
                  (let pathconfig' =
                     pathconfig\<lparr>p_program_full_path := RawWcsdup w program_full_path'\<rparr>
                   in if p_program_full_path pathconfig' = None then
                        (Some PyStatus_NO_MEMORY, pathconfig', tr2)
                      else (None, pathconfig', tr2))))"

text \<open>
  Modelled from the spec: \<^verbatim>\<open>_Py_wreadlink(path, buf, buflen)\<close> lives in \<^verbatim>\<open>fileutils.c\<close>;
  it reads the link target into the buffer, and fails when there is none or it does not fit.
\<close>

definition Py_wreadlink :: "world \<Rightarrow> string \<Rightarrow> nat \<Rightarrow> string option" where
  "Py_wreadlink w path buflen =
     (case wreadlink w path of
        None \<Rightarrow> None
      | Some target \<Rightarrow> if length target < buflen then Some target else None)"

text \<open>
  \<^verbatim>\<open>resolve_symlinks\<close> returns its status together with the string it leaves in
  \<^verbatim>\<open>path\<close>, because its caller goes on with that buffer whatever the status is. The
  buffer after a failed \<^verbatim>\<open>joinpath\<close> on the reduced path: \<^verbatim>\<open>reduce\<close> has put the
  terminator on the separator at offset \<open>n\<close>, and \<^verbatim>\<open>joinpath\<close>, when \<open>n > 0\<close> and the
  character before is no separator, has put the separator back before it fails, which
  leaves the string as it was before \<^verbatim>\<open>reduce\<close>.
\<close>

definition joinpath_reduced_failed :: "string \<Rightarrow> nat \<Rightarrow> string" where
  "joinpath_reduced_failed path path_len =
     (let dir = reduce path; n = length dir
      in if n < path_len \<and> n > 0 \<and> dir ! (n - 1) \<noteq> SEP then path else dir)"

function resolve_symlinks_loop ::
  "build \<Rightarrow> world \<Rightarrow> string \<Rightarrow> nat \<Rightarrow> nat \<Rightarrow> trace \<Rightarrow> PyStatus \<times> string \<times> trace" where
  "resolve_symlinks_loop b w path path_len links tr =
     (let new_path_len = MAXPATHLEN b + 1
      in case Py_wreadlink w path new_path_len of
           None \<Rightarrow> (None, path, tr @ [Ev_readlink path])
         | Some new_path \<Rightarrow>
             (case (if Py_isabs new_path then
                      (case safe_wcscpy new_path path_len of
                         (rc, path') \<Rightarrow>
                           if rc < 0 then Inl (PATHLEN_ERR, path') else Inr path')
                    else
                      (case joinpath (reduce path) new_path path_len of
                         Inl status \<Rightarrow> Inl (status, joinpath_reduced_failed path path_len)
                       | Inr path' \<Rightarrow> Inr path')) of
                Inl (status, path') \<Rightarrow> (Some status, path', tr @ [Ev_readlink path])
              | Inr path' \<Rightarrow>
                  (let links' = links + 1
                   in if links' \<ge> 40 then
                        (Some (PyStatus_ERR ''maximum number of symbolic links reached''),
                         path', tr @ [Ev_readlink path])
                      else
                        resolve_symlinks_loop b w path' path_len links'
                          (tr @ [Ev_readlink path]))))"
  by pat_completeness auto
termination
  by (relation "measure (\<lambda>(b, w, path, path_len, links, tr). 40 - links)") auto

definition resolve_symlinks ::
  "build \<Rightarrow> world \<Rightarrow> string \<Rightarrow> nat \<Rightarrow> trace \<Rightarrow> PyStatus \<times> string \<times> trace" where
  "resolve_symlinks b w path path_len tr = resolve_symlinks_loop b w path path_len 0 tr"

text \<open>
  \<^verbatim>\<open>calculate_argv0_path\<close> calls \<^verbatim>\<open>resolve_symlinks(argv0_path, argv0_path_len);\<close> as a
  statement: the status it returns is not looked at.
\<close>

definition calculate_argv0_path ::
  "build \<Rightarrow> world \<Rightarrow> string \<Rightarrow> nat \<Rightarrow> trace \<Rightarrow> (PyStatus_exc + string) \<times> trace" where
  "calculate_argv0_path b w program_full_path argv0_path_len tr =
     (case safe_wcscpy program_full_path argv0_path_len of
        (rc, argv0_path) \<Rightarrow>
          if rc < 0 then (Inl PATHLEN_ERR, tr)
          else
            (case resolve_symlinks b w argv0_path argv0_path_len tr of
               (status, argv0_path', tr1) \<Rightarrow> (Inr (reduce argv0_path'), tr1)))"

subsection \<open>The redirection file\<close>

definition calculate_read_pyenv ::
  "build \<Rightarrow> world \<Rightarrow> string \<Rightarrow> nat \<Rightarrow> trace \<Rightarrow> (PyStatus_exc + string) \<times> trace" where
  "calculate_read_pyenv b w argv0_path argv0_path_len tr =
     (let env_cfg = ''pyvenv.cfg'';
          filename_len = MAXPATHLEN b + 1
      in case safe_wcscpy argv0_path filename_len of
           (rc, filename) \<Rightarrow>
             if rc < 0 then (Inl PATHLEN_ERR, tr)
             else
               (case joinpath filename env_cfg filename_len of
                  Inl status \<Rightarrow> (Inl status, tr)
                | Inr filename1 \<Rightarrow>
                    (case (case wfopen w filename1 of
                             Some env_file \<Rightarrow> (Inr (Some env_file), tr @ [Ev_fopen filename1])
                           | None \<Rightarrow>
                               (case joinpath (reduce (reduce filename1)) env_cfg
                                       filename_len of
                                  Inl status \<Rightarrow> (Inl status, tr @ [Ev_fopen filename1])
                                | Inr filename2 \<Rightarrow>
                                    (Inr (wfopen w filename2),
                                     tr @ [Ev_fopen filename1, Ev_fopen filename2]))) of
                       (Inl status, tr1) \<Rightarrow> (Inl status, tr1)
                     | (Inr None, tr1) \<Rightarrow> (Inr argv0_path, tr1)
                     | (Inr (Some env_file), tr1) \<Rightarrow>
                         (case FindEnvConfigValue w env_file ''home'' (MAXPATHLEN b + 1) of
                            None \<Rightarrow> (Inr argv0_path, tr1)
                          | Some home \<Rightarrow>
                              (case safe_wcscpy home argv0_path_len of
                                 (rc', argv0_path') \<Rightarrow>
                                   if rc' < 0 then (Inl PATHLEN_ERR, tr1)
                                   else (Inr argv0_path', tr1))))))"

subsection \<open>The module search path\<close>

text \<open>
  \<^verbatim>\<open>calculate_zip_path\<close>. The joined string ends in \<^verbatim>\<open>lib/python00.zip\<close>, and the two
  zeros, at offsets \<open>bufsz - 6\<close> and \<open>bufsz - 5\<close>, become \<^verbatim>\<open>VERSION[0]\<close> and
  \<^verbatim>\<open>VERSION[2]\<close>.
\<close>

definition calculate_zip_path ::
  "build \<Rightarrow> PyCalculatePath \<Rightarrow> string \<Rightarrow> nat \<Rightarrow> PyStatus_exc + string" where
  "calculate_zip_path b calculate prefix zip_path_len =
     (case (if c_prefix_found calculate > 0 then
              (case safe_wcscpy prefix zip_path_len of
                 (rc, zip_path) \<Rightarrow>
                   if rc < 0 then Inl PATHLEN_ERR else Inr (reduce (reduce zip_path)))
            else
              (case safe_wcscpy (c_prefix calculate) zip_path_len of
                 (rc, zip_path) \<Rightarrow> if rc < 0 then Inl PATHLEN_ERR else Inr zip_path)) of
        Inl status \<Rightarrow> Inl status
      | Inr zip_path \<Rightarrow>
          (case joinpath zip_path ''lib/python00.zip'' zip_path_len of
             Inl status \<Rightarrow> Inl status
           | Inr zip_path' \<Rightarrow>
               (let bufsz = length zip_path'
                in Inr (zip_path'[bufsz - 6 := VERSION b ! 0, bufsz - 5 := VERSION b ! 2]))))"

text \<open>
  The first loop of \<^verbatim>\<open>calculate_module_search_path\<close> adds up the size of the buffer over
  the entries of the \<^verbatim>\<open>PYTHONPATH\<close> macro (\<^verbatim>\<open>size_t\<close> sums, far from wrapping).
\<close>

function defpath_bufsz :: "nat \<Rightarrow> string \<Rightarrow> nat \<Rightarrow> nat" where
  "defpath_bufsz prefixsz defpath bufsz =
     (let delim = wcschr defpath DELIM;
          bufsz1 = (if \<not> Py_isabs defpath then bufsz + prefixsz else bufsz)
      in case delim of
           Some d \<Rightarrow> defpath_bufsz prefixsz (drop (d + 1) defpath) (bufsz1 + (d + 1))
         | None \<Rightarrow> bufsz1 + (length defpath + 1))"
  by pat_completeness auto
termination
  by (relation "measure (\<lambda>(prefixsz, defpath, bufsz). length defpath)")
    (auto simp: wcschr_def split: if_splits dest: length_pos_if_in_set)

text \<open>
  The second loop appends the entries to \<^verbatim>\<open>buf\<close>. The entry at \<^verbatim>\<open>defpath\<close> is empty
  when \<^verbatim>\<open>defpath[0]\<close> is the delimiter (an entry that a delimiter ends) or the terminator
  (the last entry); an entry that a delimiter ends is appended with its delimiter.
\<close>

function defpath_merge :: "string \<Rightarrow> string \<Rightarrow> string \<Rightarrow> string" where
  "defpath_merge prefix defpath buf =
     (let delim = wcschr defpath DELIM;
          prefixsz = length prefix + 1;
          buf1 =
            (if \<not> Py_isabs defpath then
               (if prefixsz \<ge> 2 \<and> prefix ! (prefixsz - 2) \<noteq> SEP \<and>
                   (case delim of
                      Some d \<Rightarrow> wchar_at defpath 0 \<noteq> DELIM
                    | None \<Rightarrow> defpath \<noteq> [])
                then (buf @ prefix) @ [SEP]
                else buf @ prefix)
             else buf)
      in case delim of
           Some d \<Rightarrow> defpath_merge prefix (drop (d + 1) defpath) (buf1 @ take (d + 1) defpath)
         | None \<Rightarrow> buf1 @ defpath)"
  by pat_completeness auto
termination
  by (relation "measure (\<lambda>(prefix, defpath, buf). length defpath)")
    (auto simp: wcschr_def split: if_splits dest: length_pos_if_in_set)

text \<open>The size of the return buffer, as the function computes it before it allocates.\<close>

definition module_search_path_bufsz ::
  "PyCalculatePath \<Rightarrow> string \<Rightarrow> string \<Rightarrow> string \<Rightarrow> nat" where
  "module_search_path_bufsz calculate prefix exec_prefix zip_path =
     (let bufsz0 = (case c_pythonpath_env calculate of
                      Some pythonpath_env \<Rightarrow> length pythonpath_env + 1
                    | None \<Rightarrow> 0);
          prefixsz = length prefix + 1;
          bufsz1 = defpath_bufsz prefixsz (c_pythonpath calculate) bufsz0;
          bufsz2 = bufsz1 + (length zip_path + 1)
      in bufsz2 + (length exec_prefix + 1))"

definition calculate_module_search_path ::
  "PyCalculatePath \<Rightarrow> PyPathConfig \<Rightarrow> world \<Rightarrow> string \<Rightarrow> string \<Rightarrow> string \<Rightarrow>
     PyStatus \<times> PyPathConfig" where
  "calculate_module_search_path calculate pathconfig w prefix exec_prefix zip_path =
     (let bufsz = module_search_path_bufsz calculate prefix exec_prefix zip_path
      in if \<not> RawMalloc_ok w bufsz then (Some PyStatus_NO_MEMORY, pathconfig)
         else
           (let buf0 = (case c_pythonpath_env calculate of
                          Some pythonpath_env \<Rightarrow> pythonpath_env @ [DELIM]
                        | None \<Rightarrow> []);
                buf1 = (buf0 @ zip_path) @ [DELIM];
                buf2 = defpath_merge prefix (c_pythonpath calculate) buf1;
                buf3 = buf2 @ [DELIM];
                buf4 = buf3 @ exec_prefix
            in (None, pathconfig\<lparr>p_module_search_path := Some buf4\<rparr>)))"

subsection \<open>The whole computation\<close>

text \<open>
  The end of \<^verbatim>\<open>calculate_path\<close>: each of the three outputs is computed only if its field
  is \<^verbatim>\<open>NULL\<close>, and the first exception is returned.
\<close>

definition calculate_path_outputs ::
  "PyCalculatePath \<Rightarrow> PyPathConfig \<Rightarrow> world \<Rightarrow> string \<Rightarrow> string \<Rightarrow> string \<Rightarrow>
     PyStatus \<times> PyPathConfig" where
  "calculate_path_outputs calculate pathconfig w prefix exec_prefix zip_path =
     (case (if p_module_search_path pathconfig = None then
              calculate_module_search_path calculate pathconfig w prefix exec_prefix zip_path
            else (None, pathconfig)) of
        (Some status, pathconfig1) \<Rightarrow> (Some status, pathconfig1)
      | (None, pathconfig1) \<Rightarrow>
          (case (if p_prefix pathconfig1 = None then
                   calculate_set_prefix calculate pathconfig1 w prefix
                 else (None, pathconfig1)) of
             (Some status, pathconfig2) \<Rightarrow> (Some status, pathconfig2)
           | (None, pathconfig2) \<Rightarrow>
               (if p_exec_prefix pathconfig2 = None then
                  calculate_set_exec_prefix calculate pathconfig2 w exec_prefix
                else (None, pathconfig2))))"

text \<open>
  \<^verbatim>\<open>calculate_path\<close> from the declaration of \<^verbatim>\<open>argv0_path\<close> on, with the string that
  \<^verbatim>\<open>pathconfig->program_full_path\<close> points to.
\<close>

definition calculate_path_rest ::
  "build \<Rightarrow> PyCalculatePath \<Rightarrow> PyPathConfig \<Rightarrow> world \<Rightarrow> string \<Rightarrow> trace \<Rightarrow>
     PyStatus \<times> PyPathConfig \<times> trace" where
  "calculate_path_rest b calculate pathconfig w program_full_path tr =
     (let len = MAXPATHLEN b + 1
      in case calculate_argv0_path b w program_full_path len tr of
           (Inl status, tr1) \<Rightarrow> (Some status, pathconfig, tr1)
         | (Inr argv0_path, tr1) \<Rightarrow>
      (case calculate_read_pyenv b w argv0_path len tr1 of
           (Inl status, tr2) \<Rightarrow> (Some status, pathconfig, tr2)
         | (Inr argv0_path', tr2) \<Rightarrow>
      (case calculate_prefix b calculate pathconfig w argv0_path' len tr2 of
           (Inl status, tr3) \<Rightarrow> (Some status, pathconfig, tr3)
         | (Inr (prefix, calculate1), tr3) \<Rightarrow>
      (case calculate_zip_path b calculate1 prefix len of
           Inl status \<Rightarrow> (Some status, pathconfig, tr3)
         | Inr zip_path \<Rightarrow>
      (case calculate_exec_prefix b calculate1 pathconfig w argv0_path' len tr3 of
           (Inl status, tr4) \<Rightarrow> (Some status, pathconfig, tr4)
         | (Inr (exec_prefix, calculate2), tr4) \<Rightarrow>
      (let tr5 =
         (if (c_prefix_found calculate2 = 0 \<or> c_exec_prefix_found calculate2 = 0) \<and>
             c_warnings calculate2 \<noteq> 0
          then tr4 @ [Ev_stderr (''Consider setting $PYTHONHOME to <prefix>[:<exec_prefix>]'' @ [CHR 0x0A])]
          else tr4)
       in case calculate_path_outputs calculate2 pathconfig w prefix exec_prefix zip_path of
            (status, pathconfig') \<Rightarrow> (status, pathconfig', tr5)))))))"

text \<open>
  \<^verbatim>\<open>calculate_path\<close>. When \<^verbatim>\<open>calculate_program\<close> returns without an exception it has set
  \<^verbatim>\<open>pathconfig->program_full_path\<close> (it returns \<^verbatim>\<open>_PyStatus_NO_MEMORY()\<close> otherwise), so
  the field is never \<^verbatim>\<open>NULL\<close> where the rest of the function reads it.
\<close>

definition calculate_path ::
  "build \<Rightarrow> PyCalculatePath \<Rightarrow> PyPathConfig \<Rightarrow> world \<Rightarrow> trace \<Rightarrow>
     PyStatus \<times> PyPathConfig \<times> trace" where
  "calculate_path b calculate pathconfig w tr =
     (case (if p_program_full_path pathconfig = None then
              calculate_program b calculate pathconfig w tr
            else (None, pathconfig, tr)) of
        (Some status, pathconfig1, tr1) \<Rightarrow> (Some status, pathconfig1, tr1)
      | (None, pathconfig1, tr1) \<Rightarrow>
          (case p_program_full_path pathconfig1 of
             None \<Rightarrow> (Some PyStatus_NO_MEMORY, pathconfig1, tr1)
           | Some program_full_path \<Rightarrow>
               calculate_path_rest b calculate pathconfig1 w program_full_path tr1))"

subsection \<open>The join and the parent of the specification\<close>

text \<open>
  The join as the specification words it: an absolute component replaces the base; otherwise
  a separator is inserted only if the base is non-empty and not separator-terminated.
\<close>

definition spec_join :: "string \<Rightarrow> string \<Rightarrow> string" where
  "spec_join base component =
     (if component \<noteq> [] \<and> hd component = SEP then component
      else if base \<noteq> [] \<and> last base \<noteq> SEP then base @ [SEP] @ component
      else base @ component)"

text \<open>
  \<open>truncate_to_parent\<close> as the specification words it: the last segment goes, up to and
  including the separator before it; without a separator nothing is left.
\<close>

definition truncate_to_parent :: "string \<Rightarrow> string" where
  "truncate_to_parent p = rev (drop 1 (dropWhile (\<lambda>c. c \<noteq> SEP) (rev p)))"

text \<open>
  The search path as the specification words it: the entries of the default list are the
  pieces of the \<^verbatim>\<open>PYTHONPATH\<close> macro between its delimiters; a relative entry is prefixed
  with the prefix, with a separator unless the entry is empty or the prefix already ends in
  one; the pieces are joined with the delimiter.
\<close>

fun split_entries :: "char \<Rightarrow> string \<Rightarrow> string list" where
  "split_entries d [] = [[]]"
| "split_entries d (c # cs) =
     (if c = d then [] # split_entries d cs
      else (case split_entries d cs of
              [] \<Rightarrow> [[c]]
            | e # es \<Rightarrow> (c # e) # es))"

fun join_entries :: "char \<Rightarrow> string list \<Rightarrow> string" where
  "join_entries d [] = []"
| "join_entries d [e] = e"
| "join_entries d (e # es) = e @ d # join_entries d es"

definition spec_default_entry :: "string \<Rightarrow> string \<Rightarrow> string" where
  "spec_default_entry prefix entry =
     (if entry \<noteq> [] \<and> hd entry = SEP then entry
      else if entry = [] \<or> (prefix \<noteq> [] \<and> last prefix = SEP) then prefix @ entry
      else prefix @ [SEP] @ entry)"

definition spec_module_search_path ::
  "string option \<Rightarrow> string \<Rightarrow> string \<Rightarrow> string \<Rightarrow> string \<Rightarrow> string" where
  "spec_module_search_path pythonpath_env zip_path default_list prefix exec_prefix =
     join_entries DELIM
       ((case pythonpath_env of Some e \<Rightarrow> [e] | None \<Rightarrow> []) @
        [zip_path] @
        map (spec_default_entry prefix) (split_entries DELIM default_list) @
        [exec_prefix])"

subsection \<open>Vocabulary of the properties\<close>

text \<open>A path names a regular file, or a directory, when \<^verbatim>\<open>stat\<close> succeeds and says so.\<close>

definition is_regular :: "world \<Rightarrow> string \<Rightarrow> bool" where
  "is_regular w p = (case wstat w p of None \<Rightarrow> False | Some buf \<Rightarrow> st_kind buf = Regular)"

definition is_directory :: "world \<Rightarrow> string \<Rightarrow> bool" where
  "is_directory w p = (case wstat w p of None \<Rightarrow> False | Some buf \<Rightarrow> st_kind buf = Directory)"

text \<open>The absolute path of a list of segments: \<open>[a, b]\<close> is \<^verbatim>\<open>/a/b\<close>.\<close>

definition path_of_segments :: "string list \<Rightarrow> string" where
  "path_of_segments segs = concat (map (\<lambda>s. SEP # s) segs)"

text \<open>
  The two status queries of a landmark test in a directory, and the candidates of the
  ancestor walk from a directory of segments: the directory itself, then each of its
  ancestors down to the one of a single segment.
\<close>

definition landmark_probe :: "string \<Rightarrow> event list" where
  "landmark_probe dir =
     [Ev_stat (spec_join dir LANDMARK), Ev_stat (spec_join dir LANDMARK @ ''c'')]"

definition walk_candidates :: "string list \<Rightarrow> string list" where
  "walk_candidates segs = map (\<lambda>k. path_of_segments (take k segs)) (rev [1..<length segs + 1])"

text \<open>
  The candidates of the ancestor walk from any string, as the specification words the walk:
  the string itself, then \<open>truncate_to_parent\<close> of the candidate before, for as long as
  that is not empty. The first candidate is there whatever the string is.
\<close>

function spec_ancestors :: "string \<Rightarrow> string list" where
  "spec_ancestors p =
     p # (if truncate_to_parent p = [] then [] else spec_ancestors (truncate_to_parent p))"
  by pat_completeness auto
termination
proof (relation "measure length")
  show "wf (measure length)" by simp
next
  fix p :: string
  assume ne: "truncate_to_parent p \<noteq> []"
  have le: "length (dropWhile (\<lambda>c. c \<noteq> SEP) (rev p)) \<le> length p"
    using length_dropWhile_le [of "\<lambda>c. c \<noteq> SEP" "rev p"] by simp
  from ne have "drop 1 (dropWhile (\<lambda>c. c \<noteq> SEP) (rev p)) \<noteq> []"
    by (simp add: truncate_to_parent_def)
  then have "length (drop 1 (dropWhile (\<lambda>c. c \<noteq> SEP) (rev p))) <
      length (dropWhile (\<lambda>c. c \<noteq> SEP) (rev p))"
    by (cases "dropWhile (\<lambda>c. c \<noteq> SEP) (rev p)") auto
  with le have "length (truncate_to_parent p) < length p"
    by (simp add: truncate_to_parent_def)
  then show "(truncate_to_parent p, p) \<in> measure length" by simp
qed

text \<open>
  The absolutized directory of the executable, in the words of the specification's join: an
  absolute path stays; a relative one is joined to the working directory, without a leading
  \<^verbatim>\<open>./\<close>, and stays as it is when the working directory cannot be obtained or does not
  fit \<^verbatim>\<open>MAXPATHLEN\<close>.
\<close>

definition spec_absolutize :: "build \<Rightarrow> world \<Rightarrow> string \<Rightarrow> string" where
  "spec_absolutize b w path =
     (if path \<noteq> [] \<and> hd path = SEP then path
      else case wgetcwd w of
             None \<Rightarrow> path
           | Some cwd \<Rightarrow>
               if MAXPATHLEN b < length cwd then path
               else spec_join cwd (if take 2 path = [CHR ''.'', SEP] then drop 2 path else path))"

definition landmark_found :: "world \<Rightarrow> string \<Rightarrow> bool" where
  "landmark_found w dir =
     (is_regular w (spec_join dir LANDMARK) \<or> is_regular w (spec_join dir LANDMARK @ ''c''))"





text \<open>
  The frame of the computation: the program name and the home stay, and so does every output
  field that is set.
\<close>

definition frame :: "PyPathConfig \<Rightarrow> PyPathConfig \<Rightarrow> bool" where
  "frame pc pc' \<longleftrightarrow>
     p_program_name pc' = p_program_name pc \<and> p_home pc' = p_home pc \<and>
     (p_program_full_path pc \<noteq> None \<longrightarrow> p_program_full_path pc' = p_program_full_path pc) \<and>
     (p_module_search_path pc \<noteq> None \<longrightarrow>
        p_module_search_path pc' = p_module_search_path pc) \<and>
     (p_prefix pc \<noteq> None \<longrightarrow> p_prefix pc' = p_prefix pc) \<and>
     (p_exec_prefix pc \<noteq> None \<longrightarrow> p_exec_prefix pc' = p_exec_prefix pc)"

subsection \<open>Example runs\<close>

text \<open>
  A system with the given regular files and directories, no symbolic links, no file that
  opens, the root as working directory and an allocator that never fails; a build of
  version 3.9 with \<^verbatim>\<open>MAXPATHLEN\<close> 1024 and an empty \<^verbatim>\<open>VPATH\<close>; the structure that
  \<^verbatim>\<open>calculate_init\<close> fills for a build configured with the prefix \<^verbatim>\<open>/usr/local\<close>; and a
  \<^verbatim>\<open>_PyPathConfig\<close> in which only the program name is set.
\<close>

definition world_of_files :: "string list \<Rightarrow> string list \<Rightarrow> world" where
  "world_of_files regs dirs =
     \<lparr>wstat = (\<lambda>p. if p \<in> set regs then Some \<lparr>st_kind = Regular, st_mode_0111 = True\<rparr>
                   else if p \<in> set dirs then Some \<lparr>st_kind = Directory, st_mode_0111 = True\<rparr>
                   else None),
      wreadlink = (\<lambda>p. None),
      wfopen = (\<lambda>p. None),
      wgetcwd = Some ''/'',
      FindEnvConfigValue = (\<lambda>f k n. None),
      DecodeUTF8 = Decoded,
      RawMalloc_ok = (\<lambda>n. True)\<rparr>"

definition build_example :: build where
  "build_example = \<lparr>MAXPATHLEN = 1024, VERSION = ''3.9'', VPATH = Some []\<rparr>"

definition calculate_example :: PyCalculatePath where
  "calculate_example =
     \<lparr>c_path_env = Some ''/usr/bin:/bin'',
      c_pythonpath = '':plat-linux'',
      c_prefix = ''/usr/local'',
      c_exec_prefix = ''/usr/local'',
      c_lib_python = ''lib/python3.9'',
      c_prefix_found = 0,
      c_exec_prefix_found = 0,
      c_warnings = 1,
      c_pythonpath_env = None\<rparr>"

definition pathconfig_example :: "string \<Rightarrow> PyPathConfig" where
  "pathconfig_example name =
     \<lparr>p_program_full_path = None,
      p_prefix = None,
      p_exec_prefix = None,
      p_module_search_path = None,
      p_program_name = name,
      p_home = None\<rparr>"

text \<open>
  A system in which exactly the paths that end in \<^verbatim>\<open>c\<close> are regular files, and a build
  tree at \<^verbatim>\<open>/src/cpython\<close>.
\<close>

definition world_compiled_only :: world where
  "world_compiled_only =
     (world_of_files [] [])
       \<lparr>wstat := (\<lambda>p. if p \<noteq> [] \<and> last p = CHR ''c''
                       then Some \<lparr>st_kind = Regular, st_mode_0111 = False\<rparr> else None)\<rparr>"

definition world_build_tree :: world where
  "world_build_tree =
     world_of_files [''/src/cpython/Modules/Setup.local'', ''/src/cpython/Lib/os.py''] []"

text \<open>A directory directly under the root with a name of \<open>n\<close> characters.\<close>

definition long_directory :: "nat \<Rightarrow> string" where
  "long_directory n = SEP # replicate n (CHR ''a'')"


text \<open>
  A system in which \<^verbatim>\<open>/bin/l\<close>, \<^verbatim>\<open>/bin/ll\<close>, ... up to the name of \<open>n\<close> letters are
  symbolic links, each to the next name with one letter more; the name of \<open>n + 1\<close>
  letters is no link.
\<close>

definition symlink_name :: "nat \<Rightarrow> string" where
  "symlink_name k = ''/bin/'' @ replicate k (CHR ''l'')"

definition world_symlink_chain :: "nat \<Rightarrow> world" where
  "world_symlink_chain n =
     (world_of_files [] [])
       \<lparr>wreadlink :=
          (\<lambda>p. if take 5 p = ''/bin/'' \<and> 1 \<le> length (drop 5 p) \<and> length (drop 5 p) \<le> n \<and>
                   drop 5 p = replicate (length (drop 5 p)) (CHR ''l'')
                then Some (p @ ''l'') else None)\<rparr>"

text \<open>
  A caller that has set the full program path and the prefix, and an installation under
  \<^verbatim>\<open>/opt/runtime\<close>.
\<close>

definition pathconfig_preset :: PyPathConfig where
  "pathconfig_preset =
     (pathconfig_example ''python'')
       \<lparr>p_program_full_path := Some ''/opt/runtime/bin/python'', p_prefix := Some ''/custom''\<rparr>"

definition world_installed :: world where
  "world_installed =
     world_of_files [''/opt/runtime/lib/python3.9/os.py'']
       [''/opt/runtime/lib/python3.9/lib-dynload'']"

text \<open>
  A system without files whose working directory is the given one, and the installation
  under \<^verbatim>\<open>/opt/runtime\<close> with a virtual environment at \<^verbatim>\<open>/venv\<close> whose
  \<^verbatim>\<open>pyvenv.cfg\<close> names \<^verbatim>\<open>/opt/runtime/bin\<close> as home.
\<close>

definition world_in_directory :: "string \<Rightarrow> world" where
  "world_in_directory cwd = (world_of_files [] [])\<lparr>wgetcwd := Some cwd\<rparr>"


text \<open>
  The structure of the assembly scenario: one relative default entry and a search path from
  the environment.
\<close>

definition calculate_assembly :: PyCalculatePath where
  "calculate_assembly =
     calculate_example\<lparr>c_pythonpath := ''lib-dynload'', c_pythonpath_env := Some ''/extra''\<rparr>"

section \<open>Properties\<close>

declare search_for_prefix_walk.simps [simp del]
declare search_for_exec_prefix_walk.simps [simp del]
declare calculate_which.simps [simp del]
declare resolve_symlinks_loop.simps [simp del]
declare defpath_bufsz.simps [simp del]
declare defpath_merge.simps [simp del]
declare spec_ancestors.simps [simp del]

subsection \<open>The path primitives\<close>

lemma SEP_not_NUL: "SEP \<noteq> NUL"
  by (simp add: SEP_def NUL_def)

lemma Py_isabs_iff: "Py_isabs p \<longleftrightarrow> p \<noteq> [] \<and> hd p = SEP"
  by (cases p) (simp_all add: Py_isabs_def wchar_at_def SEP_not_NUL[symmetric])

lemma joinpath_eq_spec_join:
  "joinpath base component cap =
     (if cap \<le> length (spec_join base component) then Inl PATHLEN_ERR
      else Inr (spec_join base component))"
  by (auto simp: joinpath_def spec_join_def Py_isabs_iff Let_def last_conv_nth)

text \<open>The scan of \<^verbatim>\<open>reduce\<close> stops on the last separator that is not the first character.\<close>

lemma reduce_scan_take:
  "i < length dir \<Longrightarrow>
   take (reduce_scan dir i) dir =
     rev (drop 1 (dropWhile (\<lambda>c. c \<noteq> SEP) (rev (take (Suc i) dir))))"
proof (induction i)
  case 0
  then show ?case by (cases dir) auto
next
  case (Suc i)
  then have i: "i < length dir" and si: "Suc i < length dir" by simp_all
  have t: "take (Suc (Suc i)) dir = take (Suc i) dir @ [dir ! Suc i]"
    using si by (simp add: take_Suc_conv_app_nth)
  show ?case
  proof (cases "dir ! Suc i = SEP")
    case True
    with si t show ?thesis by (simp add: wchar_at_def)
  next
    case False
    with si t Suc.IH [OF i] show ?thesis by (simp add: wchar_at_def)
  qed
qed

lemma reduce_eq_truncate_to_parent: "reduce dir = truncate_to_parent dir"
proof (cases "length dir")
  case 0
  then show ?thesis by (simp add: reduce_def truncate_to_parent_def)
next
  case (Suc n)
  then have "reduce_scan dir (length dir) = reduce_scan dir n"
    by (simp add: wchar_at_def SEP_not_NUL[symmetric])
  with Suc reduce_scan_take [of n dir] show ?thesis
    by (simp add: reduce_def truncate_to_parent_def)
qed

text \<open>
  C7. No bounded path-buffer operation writes a string that exceeds the capacity or cuts
  one short: \<^verbatim>\<open>joinpath\<close> returns the path-too-long error whenever the joined string
  would reach the capacity, and otherwise writes the whole join, which is shorter than the
  capacity; \<^verbatim>\<open>safe_wcscpy\<close> fails whenever the source reaches the capacity, and otherwise
  copies the whole source.
\<close>

theorem C7_joinpath_never_truncates:
  "(cap \<le> length (spec_join base component) \<longrightarrow>
      joinpath base component cap = Inl PATHLEN_ERR) \<and>
   (\<forall>r. joinpath base component cap = Inr r \<longrightarrow>
      r = spec_join base component \<and> length r < cap) \<and>
   (cap \<le> length src \<longrightarrow> fst (safe_wcscpy src cap) < 0) \<and>
   (0 \<le> fst (safe_wcscpy src cap) \<longrightarrow> snd (safe_wcscpy src cap) = src \<and> length src < cap)"
  by (simp add: joinpath_eq_spec_join safe_wcscpy_def)

theorem C7_joinpath_never_truncates_witness:
  "joinpath ''/usr'' ''lib'' 8 = Inl PATHLEN_ERR \<and>
   joinpath ''/usr'' ''lib'' 9 = Inr ''/usr/lib'' \<and>
   fst (safe_wcscpy ''/usr'' 4) < 0 \<and>
   snd (safe_wcscpy ''/usr'' 5) = ''/usr''"
  using
    C7_joinpath_never_truncates
      [where cap = 8 and base = "''/usr''" and component = "''lib''" and src = "''/usr/lib''"]
    C7_joinpath_never_truncates
      [where cap = 9 and base = "''/usr''" and component = "''lib''" and src = "''/usr''"]
    C7_joinpath_never_truncates
      [where cap = 4 and base = "''/usr''" and component = "''lib''" and src = "''/usr''"]
    C7_joinpath_never_truncates
      [where cap = 5 and base = "''/usr''" and component = "''lib''" and src = "''/usr''"]
  by (simp add: joinpath_eq_spec_join spec_join_def SEP_def safe_wcscpy_def)

subsection \<open>The landmark test and the home override\<close>

lemma isfile_eq: "isfile w f tr = (is_regular w f, tr @ [Ev_stat f])"
  by (simp add: isfile_def is_regular_def split: option.splits)

lemma isdir_eq: "isdir w f tr = (is_directory w f, tr @ [Ev_stat f])"
  by (simp add: isdir_def is_directory_def split: option.splits)

lemma length_spec_join_LANDMARK: "length path < length (spec_join path LANDMARK)"
  by (simp add: spec_join_def LANDMARK_def SEP_def)

lemma ismodule_eq:
  "ismodule b w path tr =
     (if MAXPATHLEN b + 1 \<le> length (spec_join path LANDMARK) then (Inl PATHLEN_ERR, tr)
      else if is_regular w (spec_join path LANDMARK) then
        (Inr True, tr @ [Ev_stat (spec_join path LANDMARK)])
      else if length (spec_join path LANDMARK) + 2 \<le> MAXPATHLEN b + 1 then
        (Inr (is_regular w (spec_join path LANDMARK @ ''c'')), tr @ landmark_probe path)
      else (Inr False, tr @ [Ev_stat (spec_join path LANDMARK)]))"
  using length_spec_join_LANDMARK [of path]
  by (auto simp: ismodule_def safe_wcscpy_def joinpath_eq_spec_join isfile_eq landmark_probe_def
      Let_def split: bool.splits)

lemma take_wcschr:
  "(case wcschr s c of Some d \<Rightarrow> take d s | None \<Rightarrow> s) = takeWhile (\<lambda>x. x \<noteq> c) s"
  by (auto simp: wcschr_def takeWhile_eq_take [symmetric]
      intro!: takeWhile_eq_all_conv [THEN iffD2, symmetric])

text \<open>
  C2. With a home override the prefix search makes no system call at all (the trace comes
  back as it went in) and reads neither the file system nor the directory of the
  executable: the prefix is the home value, cut at its first delimiter, joined with
  \<^verbatim>\<open>lib/pythonX.Y\<close>, and the outcome is \<open>1\<close>, found. The join is the bounded one: a home
  value, or a joined string, that does not fit the buffer is the path-too-long error.
\<close>

theorem C2_home_override_trusted:
  "search_for_prefix b calculate (pathconfig\<lparr>p_home := Some home\<rparr>) w argv0_path prefix_len tr =
     ((if prefix_len \<le> length home then Inl PATHLEN_ERR
       else if prefix_len \<le>
                 length (spec_join (takeWhile (\<lambda>c. c \<noteq> DELIM) home) (c_lib_python calculate))
       then Inl PATHLEN_ERR
       else Inr (spec_join (takeWhile (\<lambda>c. c \<noteq> DELIM) home) (c_lib_python calculate), 1)),
      tr)"
  by (simp add: search_for_prefix_def search_for_prefix_home_def safe_wcscpy_def take_wcschr
      joinpath_eq_spec_join)

theorem C2_home_override_trusted_witness:
  "search_for_prefix build_example calculate_example
     (pathconfig_example ''python''\<lparr>p_home := Some ''/opt/py:/opt/pyexec''\<rparr>)
     (world_of_files [''/usr/bin/Modules/Setup.local'', ''/usr/bin/Lib/os.py''] [])
     ''/usr/bin'' 1025 [] =
   (Inr (''/opt/py/lib/python3.9'', 1), [])"
  using C2_home_override_trusted
    [where b = build_example and calculate = calculate_example
       and pathconfig = "pathconfig_example ''python''" and home = "''/opt/py:/opt/pyexec''"
       and w = "world_of_files [''/usr/bin/Modules/Setup.local'', ''/usr/bin/Lib/os.py''] []"
       and ?argv0_path = "''/usr/bin''" and prefix_len = 1025 and tr = "[]"]
  by (simp add: spec_join_def calculate_example_def DELIM_def SEP_def)

subsection \<open>The shortened prefix\<close>

lemma truncate_to_parent_last_segment:
  "SEP \<notin> set s \<Longrightarrow> truncate_to_parent (xs @ SEP # s) = xs"
proof -
  assume "SEP \<notin> set s"
  then have "dropWhile (\<lambda>c. c \<noteq> SEP) (rev s @ SEP # rev xs) = SEP # rev xs"
    by (subst dropWhile_append2) auto
  then show ?thesis by (simp add: truncate_to_parent_def)
qed

lemma reduce_last_segment: "SEP \<notin> set s \<Longrightarrow> reduce (xs @ SEP # s) = xs"
  by (simp add: reduce_eq_truncate_to_parent truncate_to_parent_last_segment)

lemma length_reduce_less: "d \<noteq> [] \<Longrightarrow> length (reduce d) < length d"
proof -
  assume d: "d \<noteq> []"
  have le: "length (dropWhile (\<lambda>c. c \<noteq> SEP) (rev d)) \<le> length d"
    using length_dropWhile_le [of "\<lambda>c. c \<noteq> SEP" "rev d"] by simp
  have "length (reduce d) = length (dropWhile (\<lambda>c. c \<noteq> SEP) (rev d)) - 1"
    by (simp add: reduce_eq_truncate_to_parent truncate_to_parent_def)
  with le d show ?thesis by (cases d) auto
qed

lemma length_reduce_take_less:
  "reduce (take n x) \<noteq> [] \<Longrightarrow> length (reduce (take n x)) < n"
proof -
  assume r: "reduce (take n x) \<noteq> []"
  then have "take n x \<noteq> []" by (auto simp: reduce_def)
  from length_reduce_less [OF this] show ?thesis by simp
qed

lemma walk_found_is_1:
  "search_for_prefix_walk b calculate w prefix prefix_len tr = (Inr (Some (cand, found)), tr')
   \<Longrightarrow> found = 1"
proof (induction "length prefix" arbitrary: prefix tr rule: less_induct)
  case less
  from less.prems show ?case
    by (subst (asm) search_for_prefix_walk.simps)
      (auto simp: Let_def split: sum.splits prod.splits bool.splits if_splits
        dest!: less.hyps [OF length_reduce_take_less])
qed

lemma calculate_set_prefix_found:
  "0 < c_prefix_found calculate \<Longrightarrow>
   calculate_set_prefix calculate pathconfig w prefix =
     (let root = truncate_to_parent (truncate_to_parent prefix);
          prefix' = (if root = [] then [SEP] else root)
      in if RawMalloc_ok w (length prefix' + 1) then (None, pathconfig\<lparr>p_prefix := Some prefix'\<rparr>)
         else (Some PyStatus_NO_MEMORY, pathconfig\<lparr>p_prefix := None\<rparr>))"
  by (simp add: calculate_set_prefix_def reduce_eq_truncate_to_parent RawWcsdup_def Let_def)

text \<open>
  C4. Whatever the ancestor walk finds, it tags \<open>1\<close> (found in an installed tree), and the
  prefix output for it is the candidate without its last two segments (\<^verbatim>\<open>lib\<close> and
  \<^verbatim>\<open>pythonX.Y\<close>), or the separator when nothing is left. The output is a copy from
  the raw allocator, so the function returns the no-memory status when that fails.
\<close>

theorem C4_installed_prefix_shortened:
  assumes "search_for_prefix_walk b calculate w start prefix_len tr =
             (Inr (Some (candidate, found)), tr')"
    and "c_prefix_found calculate' = found"
  shows "found = 1 \<and>
     calculate_set_prefix calculate' pathconfig w' candidate =
     (let root = truncate_to_parent (truncate_to_parent candidate);
          prefix = (if root = [] then [SEP] else root)
      in if RawMalloc_ok w' (length prefix + 1) then (None, pathconfig\<lparr>p_prefix := Some prefix\<rparr>)
         else (Some PyStatus_NO_MEMORY, pathconfig\<lparr>p_prefix := None\<rparr>))"
proof -
  from assms(1) have f: "found = 1" by (rule walk_found_is_1)
  with assms(2) have "0 < c_prefix_found calculate'" by simp
  from calculate_set_prefix_found [OF this] f show ?thesis by simp
qed

text \<open>
  From the directory \<^verbatim>\<open>/opt/runtime/bin\<close>, with the landmark under
  \<^verbatim>\<open>/opt/runtime/lib/python3.9\<close>, the prefix output is \<^verbatim>\<open>/opt/runtime\<close>.
\<close>

theorem C4_installed_prefix_shortened_witness:
  "search_for_prefix_walk build_example calculate_example
      (world_of_files [''/opt/runtime/lib/python3.9/os.py''] []) ''/opt/runtime/bin'' 1025 [] =
    (Inr (Some (''/opt/runtime/lib/python3.9'', 1)),
     [Ev_stat ''/opt/runtime/bin/lib/python3.9/os.py'',
      Ev_stat ''/opt/runtime/bin/lib/python3.9/os.pyc'',
      Ev_stat ''/opt/runtime/lib/python3.9/os.py'']) \<and>
   calculate_set_prefix (calculate_example\<lparr>c_prefix_found := 1\<rparr>)
      (pathconfig_example ''/opt/runtime/bin/python'')
      (world_of_files [''/opt/runtime/lib/python3.9/os.py''] []) ''/opt/runtime/lib/python3.9'' =
    (None, pathconfig_example ''/opt/runtime/bin/python''\<lparr>p_prefix := Some ''/opt/runtime''\<rparr>)"
proof -
  have walk: "search_for_prefix_walk build_example calculate_example
      (world_of_files [''/opt/runtime/lib/python3.9/os.py''] []) ''/opt/runtime/bin'' 1025 [] =
    (Inr (Some (''/opt/runtime/lib/python3.9'', 1)),
     [Ev_stat ''/opt/runtime/bin/lib/python3.9/os.py'',
      Ev_stat ''/opt/runtime/bin/lib/python3.9/os.pyc'',
      Ev_stat ''/opt/runtime/lib/python3.9/os.py''])"
    by code_simp
  have found: "c_prefix_found (calculate_example\<lparr>c_prefix_found := 1\<rparr>) = 1"
    by simp
  from C4_installed_prefix_shortened [OF walk found,
      of "pathconfig_example ''/opt/runtime/bin/python''"
         "world_of_files [''/opt/runtime/lib/python3.9/os.py''] []"]
    walk
  show ?thesis
    by (simp add: truncate_to_parent_def SEP_def world_of_files_def)
qed

subsection \<open>The build tree\<close>

lemma length_spec_join_relative:
  "\<not> Py_isabs c \<Longrightarrow> length p \<le> length (spec_join p c)"
  by (auto simp: spec_join_def Py_isabs_iff)

lemma search_for_prefix_build_found:
  assumes marker: "is_regular w (spec_join argv0_path ''Modules/Setup.local'')"
    and marker_fits: "length (spec_join argv0_path ''Modules/Setup.local'') \<le> MAXPATHLEN b"
    and vpath: "VPATH b = Some vpath"
    and fits: "length argv0_path < prefix_len" "length (spec_join argv0_path vpath) < prefix_len"
      "length (spec_join (spec_join argv0_path vpath) ''Lib'') < prefix_len"
  shows "search_for_prefix_build b w argv0_path prefix_len tr =
     (case ismodule b w (spec_join (spec_join argv0_path vpath) ''Lib'')
             (tr @ [Ev_stat (spec_join argv0_path ''Modules/Setup.local'')]) of
        (Inl status, tr2) \<Rightarrow> (Inl status, tr2)
      | (Inr True, tr2) \<Rightarrow> (Inr (Some (spec_join (spec_join argv0_path vpath) ''Lib'', - 1)), tr2)
      | (Inr False, tr2) \<Rightarrow> (Inr None, tr2))"
proof -
  have "length argv0_path \<le> length (spec_join argv0_path ''Modules/Setup.local'')"
    by (rule length_spec_join_relative) (simp add: Py_isabs_iff SEP_def)
  with marker_fits have "length argv0_path < MAXPATHLEN b + 1" by simp
  with assms show ?thesis
    by (simp add: search_for_prefix_build_def safe_wcscpy_def joinpath_eq_spec_join isfile_eq
        Let_def)
qed

text \<open>
  C5, as the code has it. When the build marker \<^verbatim>\<open>Modules/Setup.local\<close> is a regular file
  in the directory of the executable and the landmark test succeeds in
  \<^verbatim>\<open><argv0_path>/<VPATH>/Lib\<close>, the search tags the outcome \<open>-1\<close> (build tree) and the
  working prefix is that \<^verbatim>\<open>Lib\<close> directory, as it is; the prefix output is then the
  \<^verbatim>\<open>PREFIX\<close> of the build, not a path of the build tree.
\<close>

theorem C5_build_tree_prefix:
  assumes home: "p_home pathconfig = None"
    and marker: "is_regular w (spec_join argv0_path ''Modules/Setup.local'')"
    and marker_fits: "length (spec_join argv0_path ''Modules/Setup.local'') \<le> MAXPATHLEN b"
    and vpath: "VPATH b = Some vpath"
    and lib: "lib = spec_join (spec_join argv0_path vpath) ''Lib''"
    and fits: "length argv0_path < prefix_len" "length (spec_join argv0_path vpath) < prefix_len"
      "length lib < prefix_len"
    and landmark: "ismodule b w lib (tr @ [Ev_stat (spec_join argv0_path ''Modules/Setup.local'')])
                     = (Inr True, tr')"
  shows "calculate_prefix b calculate pathconfig w argv0_path prefix_len tr =
           (Inr (lib, calculate\<lparr>c_prefix_found := - 1\<rparr>), tr') \<and>
         calculate_set_prefix (calculate\<lparr>c_prefix_found := - 1, c_exec_prefix_found := f\<rparr>)
             pathconfig w lib =
           (if RawMalloc_ok w (length (c_prefix calculate) + 1)
            then (None, pathconfig\<lparr>p_prefix := Some (c_prefix calculate)\<rparr>)
            else (Some PyStatus_NO_MEMORY, pathconfig\<lparr>p_prefix := None\<rparr>))"
proof -
  from search_for_prefix_build_found [OF marker marker_fits vpath fits(1) fits(2), of tr]
    fits(3) lib landmark
  have "search_for_prefix_build b w argv0_path prefix_len tr = (Inr (Some (lib, - 1)), tr')"
    by simp
  with home have "search_for_prefix b calculate pathconfig w argv0_path prefix_len tr =
      (Inr (lib, - 1), tr')"
    by (simp add: search_for_prefix_def)
  then have "calculate_prefix b calculate pathconfig w argv0_path prefix_len tr =
           (Inr (lib, calculate\<lparr>c_prefix_found := - 1\<rparr>), tr')"
    by (simp add: calculate_prefix_def)
  then show ?thesis
    by (simp add: calculate_set_prefix_def RawWcsdup_def)
qed

text \<open>
  The claim as stated fails in a build tree at \<^verbatim>\<open>/src/cpython\<close> with an empty
  \<^verbatim>\<open>VPATH\<close>: the working prefix is \<^verbatim>\<open>/src/cpython/Lib\<close>, not the directory of the
  executable, and the prefix output is the compile-time \<^verbatim>\<open>/usr/local\<close>.
\<close>

theorem C5_build_tree_prefix_counterexample:
  "calculate_prefix build_example calculate_example (pathconfig_example ''/src/cpython/python'')
      world_build_tree ''/src/cpython'' 1025 [] =
     (Inr (''/src/cpython/Lib'', calculate_example\<lparr>c_prefix_found := - 1\<rparr>),
      [Ev_stat ''/src/cpython/Modules/Setup.local'', Ev_stat ''/src/cpython/Lib/os.py'']) \<and>
   ''/src/cpython/Lib'' \<noteq> ''/src/cpython'' \<and>
   p_prefix (fst (snd (calculate_path build_example calculate_example
      (pathconfig_example ''/src/cpython/python'') world_build_tree []))) = Some ''/usr/local'' \<and>
   c_prefix calculate_example = ''/usr/local'' \<and>
   p_module_search_path (fst (snd (calculate_path build_example calculate_example
      (pathconfig_example ''/src/cpython/python'') world_build_tree []))) =
     Some ''/usr/local/lib/python39.zip:/src/cpython/Lib:/src/cpython/Lib/plat-linux:/usr/local/lib/lib-dynload''"
  by code_simp

theorem C5_build_tree_prefix_witness:
  "calculate_prefix build_example calculate_example (pathconfig_example ''/src/cpython/python'')
      world_build_tree ''/src/cpython'' 1025 [] =
     (Inr (''/src/cpython/Lib'', calculate_example\<lparr>c_prefix_found := - 1\<rparr>),
      [Ev_stat ''/src/cpython/Modules/Setup.local'', Ev_stat ''/src/cpython/Lib/os.py'']) \<and>
   calculate_set_prefix (calculate_example\<lparr>c_prefix_found := - 1, c_exec_prefix_found := 0\<rparr>)
      (pathconfig_example ''/src/cpython/python'') world_build_tree ''/src/cpython/Lib'' =
     (None, pathconfig_example ''/src/cpython/python''\<lparr>p_prefix := Some ''/usr/local''\<rparr>)"
proof -
  have home: "p_home (pathconfig_example ''/src/cpython/python'') = None"
    by (simp add: pathconfig_example_def)
  have marker: "is_regular world_build_tree (spec_join ''/src/cpython'' ''Modules/Setup.local'')"
    by code_simp
  have marker_fits:
    "length (spec_join ''/src/cpython'' ''Modules/Setup.local'') \<le> MAXPATHLEN build_example"
    by code_simp
  have vpath: "VPATH build_example = Some []"
    by (simp add: build_example_def)
  have lib: "''/src/cpython/Lib'' = spec_join (spec_join ''/src/cpython'' []) ''Lib''"
    by code_simp
  have fits: "length ''/src/cpython'' < (1025::nat)"
    "length (spec_join ''/src/cpython'' []) < (1025::nat)"
    "length ''/src/cpython/Lib'' < (1025::nat)"
    by code_simp+
  have landmark: "ismodule build_example world_build_tree ''/src/cpython/Lib''
      ([] @ [Ev_stat (spec_join ''/src/cpython'' ''Modules/Setup.local'')]) =
      (Inr True, [Ev_stat ''/src/cpython/Modules/Setup.local'', Ev_stat ''/src/cpython/Lib/os.py''])"
    by code_simp
  from C5_build_tree_prefix [OF home marker marker_fits vpath lib fits landmark,
      of calculate_example 0]
  show ?thesis
    by (simp add: calculate_example_def world_build_tree_def world_of_files_def)
qed

subsection \<open>The landmark and its compiled variant\<close>

lemma ismodule_fits:
  "length (spec_join dir LANDMARK) < MAXPATHLEN b \<Longrightarrow>
   ismodule b w dir tr =
     (Inr (landmark_found w dir),
      tr @ (if is_regular w (spec_join dir LANDMARK) then [Ev_stat (spec_join dir LANDMARK)]
            else landmark_probe dir))"
  by (simp add: ismodule_eq landmark_found_def)

text \<open>
  C10, as the code has it. In a directory whose landmark path leaves room in the buffer for
  one more character, the landmark test asks for the status of \<^verbatim>\<open>os.py\<close> and then, only
  if that is no regular file, of \<^verbatim>\<open>os.pyc\<close>, and succeeds when either is a regular file.
  The build-tree check, each round of the ancestor walk and the compiled-default fallback all
  decide by this one test.
\<close>

theorem C10_landmark_or_compiled:
  assumes fits: "length (spec_join dir LANDMARK) < MAXPATHLEN b"
  shows "ismodule b w dir tr =
           (Inr (landmark_found w dir),
            tr @ (if is_regular w (spec_join dir LANDMARK)
                  then [Ev_stat (spec_join dir LANDMARK)]
                  else landmark_probe dir)) \<and>
         (is_regular w (spec_join argv0_path ''Modules/Setup.local'') \<longrightarrow>
          length (spec_join argv0_path ''Modules/Setup.local'') \<le> MAXPATHLEN b \<longrightarrow>
          VPATH b = Some vpath \<longrightarrow>
          dir = spec_join (spec_join argv0_path vpath) ''Lib'' \<longrightarrow>
          length argv0_path < prefix_len \<longrightarrow>
          length (spec_join argv0_path vpath) < prefix_len \<longrightarrow>
          length dir < prefix_len \<longrightarrow>
          fst (search_for_prefix_build b w argv0_path prefix_len tr) =
            Inr (if landmark_found w dir then Some (dir, - 1) else None)) \<and>
         (dir = spec_join prefix (c_lib_python calculate) \<longrightarrow>
          length dir < prefix_len \<longrightarrow>
          landmark_found w dir \<longrightarrow>
          fst (search_for_prefix_walk b calculate w prefix prefix_len tr) =
            Inr (Some (dir, 1))) \<and>
         (dir = spec_join (c_prefix calculate) (c_lib_python calculate) \<longrightarrow>
          length (c_prefix calculate) < prefix_len \<longrightarrow>
          length dir < prefix_len \<longrightarrow>
          fst (search_for_prefix_default b calculate w prefix_len tr) =
            Inr (dir, if landmark_found w dir then 1 else 0))"
proof (intro conjI impI)
  show "ismodule b w dir tr =
           (Inr (landmark_found w dir),
            tr @ (if is_regular w (spec_join dir LANDMARK)
                  then [Ev_stat (spec_join dir LANDMARK)]
                  else landmark_probe dir))"
    using fits by (rule ismodule_fits)
next
  assume "is_regular w (spec_join argv0_path ''Modules/Setup.local'')"
    and "length (spec_join argv0_path ''Modules/Setup.local'') \<le> MAXPATHLEN b"
    and "VPATH b = Some vpath"
    and d: "dir = spec_join (spec_join argv0_path vpath) ''Lib''"
    and "length argv0_path < prefix_len"
    and "length (spec_join argv0_path vpath) < prefix_len"
    and "length dir < prefix_len"
  then have "search_for_prefix_build b w argv0_path prefix_len tr =
     (case ismodule b w dir (tr @ [Ev_stat (spec_join argv0_path ''Modules/Setup.local'')]) of
        (Inl status, tr2) \<Rightarrow> (Inl status, tr2)
      | (Inr True, tr2) \<Rightarrow> (Inr (Some (dir, - 1)), tr2)
      | (Inr False, tr2) \<Rightarrow> (Inr None, tr2))"
    unfolding d using search_for_prefix_build_found [of w argv0_path b vpath prefix_len tr]
    by simp
  then show "fst (search_for_prefix_build b w argv0_path prefix_len tr) =
            Inr (if landmark_found w dir then Some (dir, - 1) else None)"
    by (simp add: ismodule_fits [OF fits])
next
  assume d: "dir = spec_join prefix (c_lib_python calculate)" and l: "length dir < prefix_len"
    and f: "landmark_found w dir"
  have j: "joinpath prefix (c_lib_python calculate) prefix_len = Inr dir"
    using l by (simp add: joinpath_eq_spec_join d [symmetric])
  show "fst (search_for_prefix_walk b calculate w prefix prefix_len tr) =
            Inr (Some (dir, 1))"
    by (subst search_for_prefix_walk.simps) (simp add: j f ismodule_fits [OF fits])
next
  assume d: "dir = spec_join (c_prefix calculate) (c_lib_python calculate)"
    and c: "length (c_prefix calculate) < prefix_len" and l: "length dir < prefix_len"
  have j: "joinpath (c_prefix calculate) (c_lib_python calculate) prefix_len = Inr dir"
    using l by (simp add: joinpath_eq_spec_join d [symmetric])
  show "fst (search_for_prefix_default b calculate w prefix_len tr) =
            Inr (dir, if landmark_found w dir then 1 else 0)"
    using c by (simp add: search_for_prefix_default_def safe_wcscpy_def j ismodule_fits [OF fits])
qed


theorem C10_landmark_or_compiled_witness:
  "ismodule build_example world_compiled_only ''/usr/lib/python3.9'' [] =
     (Inr True, [Ev_stat ''/usr/lib/python3.9/os.py'', Ev_stat ''/usr/lib/python3.9/os.pyc'']) \<and>
   fst (search_for_prefix_walk build_example calculate_example world_compiled_only ''/usr'' 1025 [])
     = Inr (Some (''/usr/lib/python3.9'', 1))"
proof -
  have fits: "length (spec_join ''/usr/lib/python3.9'' LANDMARK) < MAXPATHLEN build_example"
    by code_simp
  have dir: "''/usr/lib/python3.9'' = spec_join ''/usr'' (c_lib_python calculate_example)"
    by code_simp
  have len: "length ''/usr/lib/python3.9'' < (1025::nat)"
    by code_simp
  have found: "landmark_found world_compiled_only ''/usr/lib/python3.9''"
    by code_simp
  have reg: "\<not> is_regular world_compiled_only (spec_join ''/usr/lib/python3.9'' LANDMARK)"
    by code_simp
  have probe: "landmark_probe ''/usr/lib/python3.9'' =
      [Ev_stat ''/usr/lib/python3.9/os.py'', Ev_stat ''/usr/lib/python3.9/os.pyc'']"
    by code_simp
  from C10_landmark_or_compiled [OF fits, where w = world_compiled_only and tr = "[]"
      and prefix = "''/usr''" and calculate = calculate_example and prefix_len = 1025]
    dir len found reg probe
  show ?thesis by simp
qed

lemma ismodule_boundary:
  "landmark_found world_compiled_only (long_directory 1017) \<and>
   length (spec_join (long_directory 1017) LANDMARK) = MAXPATHLEN build_example \<and>
   ismodule build_example world_compiled_only (long_directory 1017) [] =
     (Inr False, [Ev_stat (spec_join (long_directory 1017) LANDMARK)])"
proof -
  have j: "spec_join (long_directory 1017) LANDMARK = long_directory 1017 @ ''/os.py''"
    by (simp add: spec_join_def long_directory_def LANDMARK_def SEP_def)
  have r1: "\<not> is_regular world_compiled_only (long_directory 1017 @ ''/os.py'')"
    by (simp add: is_regular_def world_compiled_only_def world_of_files_def)
  have r2: "is_regular world_compiled_only ((long_directory 1017 @ ''/os.py'') @ ''c'')"
    by (simp add: is_regular_def world_compiled_only_def world_of_files_def)
  have l: "length (long_directory 1017 @ ''/os.py'') = 1024"
    by (simp add: long_directory_def)
  show ?thesis
    unfolding ismodule_eq landmark_found_def j using r1 r2 l
    by (simp add: build_example_def)
qed


lemma walk_boundary:
  "landmark_found world_compiled_only (spec_join (long_directory 1003) ''lib/python3.9'') \<and>
   search_for_prefix_walk build_example calculate_example world_compiled_only
       (long_directory 1003) 1025 [] =
     (Inr None, [Ev_stat (spec_join (spec_join (long_directory 1003) ''lib/python3.9'') LANDMARK)])"
proof -
  let ?d = "long_directory 1003 @ ''/lib/python3.9''"
  have d: "spec_join (long_directory 1003) ''lib/python3.9'' = ?d"
    by (simp add: spec_join_def long_directory_def SEP_def)
  have j: "spec_join ?d LANDMARK = ?d @ ''/os.py''"
    by (simp add: spec_join_def long_directory_def LANDMARK_def SEP_def)
  have r1: "\<not> is_regular world_compiled_only (?d @ ''/os.py'')"
    by (simp add: is_regular_def world_compiled_only_def world_of_files_def)
  have r2: "is_regular world_compiled_only ((?d @ ''/os.py'') @ ''c'')"
    by (simp add: is_regular_def world_compiled_only_def world_of_files_def)
  have l: "length (?d @ ''/os.py'') = 1024" "length ?d = 1018"
    by (simp_all add: long_directory_def)
  have red: "reduce (long_directory 1003) = []"
    using reduce_last_segment [of "replicate 1003 (CHR ''a'')" "[]"]
    by (simp add: long_directory_def SEP_def)
  have m: "ismodule build_example world_compiled_only ?d [] = (Inr False, [Ev_stat (?d @ ''/os.py'')])"
    unfolding ismodule_eq j using r1 l by (simp add: build_example_def)
  have jp: "joinpath (long_directory 1003) (c_lib_python calculate_example) 1025 = Inr ?d"
    unfolding joinpath_eq_spec_join using d l by (simp add: calculate_example_def)
  have found: "landmark_found world_compiled_only ?d"
    by (simp add: landmark_found_def j is_regular_def world_compiled_only_def
        world_of_files_def)
  have walk: "search_for_prefix_walk build_example calculate_example world_compiled_only
       (long_directory 1003) 1025 [] = (Inr None, [Ev_stat (?d @ ''/os.py'')])"
    by (subst search_for_prefix_walk.simps) (simp add: jp m red)
  from found walk show ?thesis
    unfolding d j by simp
qed

text \<open>
  The claim as stated fails where the landmark path fills the buffer (\<^verbatim>\<open>MAXPATHLEN\<close>
  characters): \<^verbatim>\<open>wcslen(filename) + 2 <= filename_len\<close> is false, the compiled variant is
  not looked at, and the test, and with it the round of the ancestor walk, fails although
  \<^verbatim>\<open>os.pyc\<close> is a regular file there.
\<close>

theorem C10_landmark_or_compiled_counterexample:
  "(landmark_found world_compiled_only (long_directory 1017) \<and>
    length (spec_join (long_directory 1017) LANDMARK) = MAXPATHLEN build_example \<and>
    ismodule build_example world_compiled_only (long_directory 1017) [] =
      (Inr False, [Ev_stat (spec_join (long_directory 1017) LANDMARK)])) \<and>
   (landmark_found world_compiled_only (spec_join (long_directory 1003) ''lib/python3.9'') \<and>
    search_for_prefix_walk build_example calculate_example world_compiled_only
        (long_directory 1003) 1025 [] =
      (Inr None,
       [Ev_stat (spec_join (spec_join (long_directory 1003) ''lib/python3.9'') LANDMARK)]))"
  by (rule conjI [OF ismodule_boundary walk_boundary])

subsection \<open>The ancestor walk\<close>

lemma path_of_segments_snoc:
  "path_of_segments (ss @ [s]) = path_of_segments ss @ SEP # s"
  by (simp add: path_of_segments_def)

lemma walk_candidates_Nil: "walk_candidates [] = []"
  by (simp add: walk_candidates_def)

lemma walk_candidates_snoc:
  "walk_candidates (ss @ [s]) = path_of_segments (ss @ [s]) # walk_candidates ss"
proof -
  have "map (\<lambda>k. path_of_segments (take k (ss @ [s]))) (rev [1..<length ss + 1]) =
        map (\<lambda>k. path_of_segments (take k ss)) (rev [1..<length ss + 1])"
    by (rule map_cong) auto
  then show ?thesis by (simp add: walk_candidates_def)
qed

lemma walk_candidates_single: "walk_candidates [s] = [path_of_segments [s]]"
  using walk_candidates_snoc [of "[]" s] by (simp add: walk_candidates_Nil)

lemma length_walk_candidates: "length (walk_candidates segs) = length segs"
  by (induction segs rule: rev_induct) (simp_all add: walk_candidates_Nil walk_candidates_snoc)

lemma walk_candidates_length_le:
  "c \<in> set (walk_candidates segs) \<Longrightarrow> length c \<le> length (path_of_segments segs)"
  by (induction segs rule: rev_induct)
    (auto simp: walk_candidates_Nil walk_candidates_snoc path_of_segments_snoc)

lemma distinct_walk_candidates: "distinct (walk_candidates segs)"
proof (induction segs rule: rev_induct)
  case Nil
  show ?case by (simp add: walk_candidates_Nil)
next
  case (snoc s ss)
  have "path_of_segments (ss @ [s]) \<notin> set (walk_candidates ss)"
    using walk_candidates_length_le [of "path_of_segments (ss @ [s])" ss]
    by (auto simp: path_of_segments_snoc)
  with snoc show ?case by (simp add: walk_candidates_snoc)
qed

lemma spec_join_relative:
  "\<not> Py_isabs c \<Longrightarrow> spec_join p c = p @ (if p \<noteq> [] \<and> last p \<noteq> SEP then [SEP] else []) @ c"
  by (auto simp: spec_join_def Py_isabs_iff)

lemma path_of_segments_nonempty_last:
  "segs \<noteq> [] \<Longrightarrow> \<forall>s\<in>set segs. s \<noteq> [] \<and> SEP \<notin> set s \<Longrightarrow>
   path_of_segments segs \<noteq> [] \<and> last (path_of_segments segs) \<noteq> SEP"
  by (cases segs rule: rev_cases) (auto simp: path_of_segments_snoc dest: last_in_set)

lemma walk_candidates_proper:
  "\<forall>s\<in>set segs. s \<noteq> [] \<and> SEP \<notin> set s \<Longrightarrow> c \<in> set (walk_candidates segs) \<Longrightarrow>
   c \<noteq> [] \<and> last c \<noteq> SEP"
proof (induction segs rule: rev_induct)
  case Nil
  then show ?case by (simp add: walk_candidates_Nil)
next
  case (snoc s ss)
  then show ?case
    using path_of_segments_nonempty_last [of "ss @ [s]"]
    by (auto simp: walk_candidates_snoc)
qed

lemma distinct_walk_probes:
  assumes "\<forall>s\<in>set segs. s \<noteq> [] \<and> SEP \<notin> set s" and "\<not> Py_isabs lib"
  shows "distinct (map (\<lambda>c. spec_join c lib) (walk_candidates segs))"
proof -
  have "inj_on (\<lambda>c. spec_join c lib) (set (walk_candidates segs))"
  proof (rule inj_onI)
    fix x y
    assume "x \<in> set (walk_candidates segs)" "y \<in> set (walk_candidates segs)"
      and "spec_join x lib = spec_join y lib"
    with walk_candidates_proper [OF assms(1)] assms(2) show "x = y"
      by (simp add: spec_join_relative)
  qed
  with distinct_walk_candidates show ?thesis by (simp add: distinct_map)
qed

lemma search_for_prefix_build_no_marker:
  assumes "\<not> is_regular w (spec_join argv0_path ''Modules/Setup.local'')"
    and "length (spec_join argv0_path ''Modules/Setup.local'') \<le> MAXPATHLEN b"
  shows "search_for_prefix_build b w argv0_path prefix_len tr =
           (Inr None, tr @ [Ev_stat (spec_join argv0_path ''Modules/Setup.local'')])"
proof -
  have "length argv0_path \<le> length (spec_join argv0_path ''Modules/Setup.local'')"
    by (rule length_spec_join_relative) (simp add: Py_isabs_iff SEP_def)
  with assms show ?thesis
    by (simp add: search_for_prefix_build_def safe_wcscpy_def joinpath_eq_spec_join isfile_eq)
qed

lemma search_for_prefix_default_absent:
  assumes absent: "\<And>dir. \<not> landmark_found w dir"
    and lib: "\<not> Py_isabs (c_lib_python calculate)"
    and fits: "length (c_prefix calculate) + length (c_lib_python calculate) + 9 \<le> MAXPATHLEN b"
  shows "search_for_prefix_default b calculate w (MAXPATHLEN b + 1) tr =
           (Inr (spec_join (c_prefix calculate) (c_lib_python calculate), 0),
            tr @ landmark_probe (spec_join (c_prefix calculate) (c_lib_python calculate)))"
proof -
  let ?d = "spec_join (c_prefix calculate) (c_lib_python calculate)"
  have dlen: "length ?d \<le> length (c_prefix calculate) + 1 + length (c_lib_python calculate)"
    by (simp add: spec_join_relative [OF lib])
  have llen: "length (spec_join ?d LANDMARK) \<le> length ?d + 6"
    by (simp add: spec_join_def LANDMARK_def)
  from dlen llen fits have f: "length (spec_join ?d LANDMARK) < MAXPATHLEN b"
    by simp
  have nf: "\<not> landmark_found w ?d" by (rule absent)
  then have nr: "\<not> is_regular w (spec_join ?d LANDMARK)"
    by (simp add: landmark_found_def)
  from dlen fits nf nr show ?thesis
    by (simp add: search_for_prefix_default_def safe_wcscpy_def joinpath_eq_spec_join
        ismodule_fits [OF f])
qed

lemma length_truncate_to_parent_less:
  "p \<noteq> [] \<Longrightarrow> length (truncate_to_parent p) < length p"
  using length_reduce_less [of p] by (simp add: reduce_eq_truncate_to_parent)

lemma spec_ancestors_not_Nil: "spec_ancestors p \<noteq> []"
  by (subst spec_ancestors.simps) simp

lemma hd_spec_ancestors: "hd (spec_ancestors p) = p"
  by (subst spec_ancestors.simps) simp

lemma spec_ancestors_step:
  "Suc i < length (spec_ancestors p) \<Longrightarrow>
   spec_ancestors p ! Suc i = truncate_to_parent (spec_ancestors p ! i)"
proof (induction p arbitrary: i rule: spec_ancestors.induct)
  case (1 p)
  show ?case
  proof (cases "truncate_to_parent p = []")
    case True
    with "1.prems" show ?thesis by (subst (asm) spec_ancestors.simps) simp
  next
    case False
    then have u: "spec_ancestors p = p # spec_ancestors (truncate_to_parent p)"
      by (subst spec_ancestors.simps) simp
    show ?thesis
    proof (cases i)
      case 0
      with u show ?thesis
        using hd_spec_ancestors [of "truncate_to_parent p"]
          spec_ancestors_not_Nil [of "truncate_to_parent p"]
        by (simp add: hd_conv_nth)
    next
      case (Suc j)
      with "1.prems" u have "Suc j < length (spec_ancestors (truncate_to_parent p))" by simp
      from "1.IH" [OF False this] u Suc show ?thesis by simp
    qed
  qed
qed

lemma last_spec_ancestors: "truncate_to_parent (last (spec_ancestors p)) = []"
proof (induction p rule: spec_ancestors.induct)
  case (1 p)
  show ?case
  proof (cases "truncate_to_parent p = []")
    case True
    then show ?thesis by (subst spec_ancestors.simps) simp
  next
    case False
    with "1.IH" show ?thesis
      by (subst spec_ancestors.simps) (simp add: spec_ancestors_not_Nil)
  qed
qed

lemma spec_ancestors_length_le:
  "c \<in> set (spec_ancestors p) \<Longrightarrow> length c \<le> length p"
proof (induction p rule: spec_ancestors.induct)
  case (1 p)
  show ?case
  proof (cases "truncate_to_parent p = []")
    case True
    with "1.prems" show ?thesis by (subst (asm) spec_ancestors.simps) simp
  next
    case False
    then have "p \<noteq> []" by (auto simp: truncate_to_parent_def)
    from length_truncate_to_parent_less [OF this] "1.IH" [OF False] "1.prems" False
    show ?thesis by (subst (asm) spec_ancestors.simps) auto
  qed
qed

lemma distinct_spec_ancestors: "distinct (spec_ancestors p)"
proof (induction p rule: spec_ancestors.induct)
  case (1 p)
  show ?case
  proof (cases "truncate_to_parent p = []")
    case True
    then show ?thesis by (subst spec_ancestors.simps) simp
  next
    case False
    then have "p \<noteq> []" by (auto simp: truncate_to_parent_def)
    from length_truncate_to_parent_less [OF this]
    have "p \<notin> set (spec_ancestors (truncate_to_parent p))"
      using spec_ancestors_length_le [of p "truncate_to_parent p"] by auto
    with "1.IH" [OF False] False show ?thesis
      by (subst spec_ancestors.simps) simp
  qed
qed

lemma spec_ancestors_segments:
  "segs \<noteq> [] \<Longrightarrow> \<forall>s\<in>set segs. SEP \<notin> set s \<Longrightarrow>
   spec_ancestors (path_of_segments segs) = walk_candidates segs"
proof (induction segs rule: rev_induct)
  case Nil
  then show ?case by simp
next
  case (snoc s ss)
  from snoc.prems have s: "SEP \<notin> set s" by simp
  have t: "truncate_to_parent (path_of_segments (ss @ [s])) = path_of_segments ss"
    by (simp add: path_of_segments_snoc truncate_to_parent_last_segment [OF s])
  show ?case
  proof (cases "ss = []")
    case True
    then have "path_of_segments ss = []" by (simp add: path_of_segments_def)
    with t True show ?thesis
      by (subst spec_ancestors.simps) (simp add: walk_candidates_single)
  next
    case False
    then have "path_of_segments ss \<noteq> []"
      by (cases ss) (simp_all add: path_of_segments_def)
    with t snoc False show ?thesis
      by (subst spec_ancestors.simps) (simp add: walk_candidates_snoc)
  qed
qed

lemma spec_ancestors_trailing_separator:
  assumes "d \<noteq> []"
  shows "take 2 (spec_ancestors (d @ [SEP])) = [d @ [SEP], d]"
proof -
  have t: "truncate_to_parent (d @ [SEP]) = d"
    using truncate_to_parent_last_segment [of "[]" d] by simp
  have "spec_ancestors (d @ [SEP]) = (d @ [SEP]) # spec_ancestors d"
    using assms t by (subst spec_ancestors.simps) simp
  moreover have "take 1 (spec_ancestors d) = [d]"
    by (subst spec_ancestors.simps) simp
  ultimately show ?thesis by (simp add: numeral_2_eq_2)
qed

lemma spec_ancestors_root: "spec_ancestors [SEP] = [[SEP]]"
  by (subst spec_ancestors.simps) (simp add: truncate_to_parent_def)

lemma walk_no_landmark_from:
  assumes absent: "\<And>dir. \<not> landmark_found w dir"
    and lib: "\<not> Py_isabs (c_lib_python calculate)"
  shows "length start + length (c_lib_python calculate) + 9 \<le> MAXPATHLEN b \<Longrightarrow>
     search_for_prefix_walk b calculate w start (MAXPATHLEN b + 1) tr =
       (Inr None,
        tr @ concat (map (\<lambda>c. landmark_probe (spec_join c (c_lib_python calculate)))
                      (spec_ancestors start)))"
proof (induction "length start" arbitrary: start tr rule: less_induct)
  case less
  let ?d = "spec_join start (c_lib_python calculate)"
  have dlen: "length ?d \<le> length start + 1 + length (c_lib_python calculate)"
    by (simp add: spec_join_relative [OF lib])
  have llen: "length (spec_join ?d LANDMARK) \<le> length ?d + 6"
    by (simp add: spec_join_def LANDMARK_def)
  from dlen llen less.prems have fits: "length (spec_join ?d LANDMARK) < MAXPATHLEN b"
    by simp
  from dlen less.prems
  have j: "joinpath start (c_lib_python calculate) (MAXPATHLEN b + 1) = Inr ?d"
    by (simp add: joinpath_eq_spec_join)
  have nf: "\<not> landmark_found w ?d"
    by (rule absent)
  then have nr: "\<not> is_regular w (spec_join ?d LANDMARK)"
    by (simp add: landmark_found_def)
  have m: "ismodule b w ?d tr = (Inr False, tr @ landmark_probe ?d)"
    using nf nr by (simp add: ismodule_fits [OF fits])
  have t: "take (length start) ?d = start"
    by (simp add: spec_join_relative [OF lib])
  have r: "reduce start = truncate_to_parent start"
    by (rule reduce_eq_truncate_to_parent)
  show ?case
  proof (cases "truncate_to_parent start = []")
    case True
    with j m t r show ?thesis
      by (subst search_for_prefix_walk.simps, subst spec_ancestors.simps) simp
  next
    case False
    then have "start \<noteq> []" by (auto simp: truncate_to_parent_def)
    from length_truncate_to_parent_less [OF this]
    have l: "length (truncate_to_parent start) < length start" .
    with less.prems
    have "length (truncate_to_parent start) + length (c_lib_python calculate) + 9
            \<le> MAXPATHLEN b" by simp
    from less.hyps [OF l this]
    have "search_for_prefix_walk b calculate w (truncate_to_parent start) (MAXPATHLEN b + 1)
         (tr @ landmark_probe ?d) =
       (Inr None,
        (tr @ landmark_probe ?d) @
          concat (map (\<lambda>c. landmark_probe (spec_join c (c_lib_python calculate)))
                      (spec_ancestors (truncate_to_parent start))))" .
    with j m t r False show ?thesis
      by (subst search_for_prefix_walk.simps, subst spec_ancestors.simps) simp
  qed
qed

lemma copy_absolute_eq_spec:
  assumes "length (spec_absolutize b w path) \<le> MAXPATHLEN b" "length path \<le> MAXPATHLEN b"
  shows "copy_absolute w path (MAXPATHLEN b + 1) tr =
     (Inr (spec_absolutize b w path), tr @ (if Py_isabs path then [] else [Ev_getcwd]))"
proof -
  have d: "(wchar_at path 0 = CHR ''.'' \<and> wchar_at path 1 = SEP) \<longleftrightarrow>
       take 2 path = [CHR ''.'', SEP]"
  proof (cases path)
    case Nil
    then show ?thesis by (simp add: wchar_at_def NUL_def)
  next
    case (Cons x xs)
    then show ?thesis
      by (cases xs) (auto simp: wchar_at_def NUL_def SEP_def numeral_2_eq_2)
  qed
  show ?thesis
  proof (cases "Py_isabs path")
    case True
    with assms(2) show ?thesis
      by (simp add: copy_absolute_def spec_absolutize_def Py_isabs_iff safe_wcscpy_def)
  next
    case rel: False
    then have a: "\<not> (path \<noteq> [] \<and> hd path = SEP)" by (simp add: Py_isabs_iff)
    show ?thesis
    proof (cases "wgetcwd w")
      case None
      with rel a assms(2) show ?thesis
        by (simp add: copy_absolute_def spec_absolutize_def safe_wcscpy_def Py_wgetcwd_def)
    next
      case (Some cwd)
      show ?thesis
      proof (cases "MAXPATHLEN b < length cwd")
        case True
        with Some rel a assms(2) show ?thesis
          by (simp add: copy_absolute_def spec_absolutize_def safe_wcscpy_def Py_wgetcwd_def)
      next
        case False
        then have g: "Py_wgetcwd w (MAXPATHLEN b + 1) = Some cwd"
          using Some by (simp add: Py_wgetcwd_def)
        from False Some a
        have s: "spec_absolutize b w path =
            spec_join cwd (if take 2 path = [CHR ''.'', SEP] then drop 2 path else path)"
          by (auto simp: spec_absolutize_def)
        from assms(1) rel g d show ?thesis
          unfolding s
          by (simp add: copy_absolute_def joinpath_eq_spec_join)
      qed
    qed
  qed
qed

text \<open>
  C6, as the code has it. There is no home override, no build marker and no landmark
  anywhere, \<^verbatim>\<open>lib_python\<close> is relative (\<^verbatim>\<open>calculate_init\<close> sets it to
  \<^verbatim>\<open>"lib/python" VERSION\<close>), and the paths probed fit the buffers. Then, for every
  directory of the executable, the search asks for the marker, asks for the working
  directory if the directory is relative, probes the landmark in \<^verbatim>\<open><candidate>/lib/pythonX.Y\<close> for the candidates of
  the walk from the absolutized directory, in order, probes the compiled default and returns
  it tagged \<open>0\<close>. The candidates are the absolutized directory and then the parent of the
  candidate before, until that parent is empty: there is always a first candidate, and no
  candidate string occurs twice. The walk is a total function: its recursion is on a
  strictly shorter string.

  When the absolutized directory is the path of \<open>N \<ge> 1\<close> segments (non-empty, without
  separator, one separator before each), the candidates are the \<open>N\<close> paths of its leading
  segments, and no directory is probed twice. When it is a non-empty string that does not
  end in a separator, followed by one separator, the second candidate is that string, and
  both candidates give the same probed directory. When it is the root, there is the one
  candidate.
\<close>

theorem C6_ancestor_walk_probes:
  assumes home: "p_home pathconfig = None"
    and no_marker: "\<not> is_regular w (spec_join argv0_path ''Modules/Setup.local'')"
    and absent: "\<And>dir. \<not> landmark_found w dir"
    and lib: "\<not> Py_isabs (c_lib_python calculate)"
    and start: "start = spec_absolutize b w argv0_path"
    and fits: "length start + length (c_lib_python calculate) + 9 \<le> MAXPATHLEN b"
      "length argv0_path + 20 \<le> MAXPATHLEN b"
      "length (c_prefix calculate) + length (c_lib_python calculate) + 9 \<le> MAXPATHLEN b"
  shows "search_for_prefix b calculate pathconfig w argv0_path (MAXPATHLEN b + 1) tr =
           (Inr (spec_join (c_prefix calculate) (c_lib_python calculate), 0),
            tr @ [Ev_stat (spec_join argv0_path ''Modules/Setup.local'')] @
            (if Py_isabs argv0_path then [] else [Ev_getcwd]) @
            concat (map (\<lambda>c. landmark_probe (spec_join c (c_lib_python calculate)))
                     (spec_ancestors start)) @
            landmark_probe (spec_join (c_prefix calculate) (c_lib_python calculate))) \<and>
         spec_ancestors start \<noteq> [] \<and>
         hd (spec_ancestors start) = start \<and>
         (\<forall>i. Suc i < length (spec_ancestors start) \<longrightarrow>
            spec_ancestors start ! Suc i = truncate_to_parent (spec_ancestors start ! i)) \<and>
         truncate_to_parent (last (spec_ancestors start)) = [] \<and>
         distinct (spec_ancestors start) \<and>
         (\<forall>segs. segs \<noteq> [] \<and> (\<forall>s\<in>set segs. s \<noteq> [] \<and> SEP \<notin> set s) \<and>
              start = path_of_segments segs \<longrightarrow>
            spec_ancestors start = walk_candidates segs \<and>
            length (spec_ancestors start) = length segs \<and>
            distinct (map (\<lambda>c. spec_join c (c_lib_python calculate)) (spec_ancestors start))) \<and>
         (\<forall>d. d \<noteq> [] \<and> last d \<noteq> SEP \<and> start = d @ [SEP] \<longrightarrow>
            take 2 (spec_ancestors start) = [start, d] \<and>
            spec_join d (c_lib_python calculate) = spec_join start (c_lib_python calculate)) \<and>
         (start = [SEP] \<longrightarrow> spec_ancestors start = [start])"
proof -
  have mlen: "length (spec_join argv0_path ''Modules/Setup.local'') \<le> MAXPATHLEN b"
    using fits(2) by (simp add: spec_join_def)
  have build: "search_for_prefix_build b w argv0_path (MAXPATHLEN b + 1) tr =
           (Inr None, tr @ [Ev_stat (spec_join argv0_path ''Modules/Setup.local'')])"
    using no_marker mlen by (rule search_for_prefix_build_no_marker)
  have copy: "copy_absolute w argv0_path (MAXPATHLEN b + 1) tr' =
      (Inr start, tr' @ (if Py_isabs argv0_path then [] else [Ev_getcwd]))" for tr'
    unfolding start using fits(1,2) [unfolded start]
    by (intro copy_absolute_eq_spec) simp_all
  have walk: "search_for_prefix_walk b calculate w start (MAXPATHLEN b + 1) tr' =
       (Inr None,
        tr' @ concat (map (\<lambda>c. landmark_probe (spec_join c (c_lib_python calculate)))
                      (spec_ancestors start)))" for tr'
    using absent lib fits(1) by (rule walk_no_landmark_from)
  have dflt: "search_for_prefix_default b calculate w (MAXPATHLEN b + 1) tr' =
           (Inr (spec_join (c_prefix calculate) (c_lib_python calculate), 0),
            tr' @ landmark_probe (spec_join (c_prefix calculate) (c_lib_python calculate)))"
    for tr'
    using absent lib fits(3) by (rule search_for_prefix_default_absent)
  have run: "search_for_prefix b calculate pathconfig w argv0_path (MAXPATHLEN b + 1) tr =
           (Inr (spec_join (c_prefix calculate) (c_lib_python calculate), 0),
            tr @ [Ev_stat (spec_join argv0_path ''Modules/Setup.local'')] @
            (if Py_isabs argv0_path then [] else [Ev_getcwd]) @
            concat (map (\<lambda>c. landmark_probe (spec_join c (c_lib_python calculate)))
                     (spec_ancestors start)) @
            landmark_probe (spec_join (c_prefix calculate) (c_lib_python calculate)))"
    by (simp only: search_for_prefix_def home build copy walk dflt option.case sum.case
        prod.case append_assoc)
  have normal: "spec_ancestors start = walk_candidates segs \<and>
      length (spec_ancestors start) = length segs \<and>
      distinct (map (\<lambda>c. spec_join c (c_lib_python calculate)) (spec_ancestors start))"
    if "segs \<noteq> [] \<and> (\<forall>s\<in>set segs. s \<noteq> [] \<and> SEP \<notin> set s) \<and> start = path_of_segments segs"
    for segs
  proof -
    from that have ne: "segs \<noteq> []" and proper: "\<forall>s\<in>set segs. s \<noteq> [] \<and> SEP \<notin> set s"
      and s: "start = path_of_segments segs" by simp_all
    from proper have sep: "\<forall>s\<in>set segs. SEP \<notin> set s" by simp
    have "spec_ancestors start = walk_candidates segs"
      unfolding s using ne sep by (rule spec_ancestors_segments)
    then show ?thesis
      using length_walk_candidates [of segs] distinct_walk_probes [OF proper lib] by simp
  qed
  have trailing: "take 2 (spec_ancestors start) = [start, d] \<and>
      spec_join d (c_lib_python calculate) = spec_join start (c_lib_python calculate)"
    if "d \<noteq> [] \<and> last d \<noteq> SEP \<and> start = d @ [SEP]" for d
    using that spec_ancestors_trailing_separator [of d] lib
    by (simp add: spec_join_relative)
  have root: "start = [SEP] \<longrightarrow> spec_ancestors start = [start]"
    by (simp add: spec_ancestors_root)
  show ?thesis
    using run spec_ancestors_not_Nil [of start] hd_spec_ancestors [of start]
      spec_ancestors_step [of _ start] last_spec_ancestors [of start]
      distinct_spec_ancestors [of start] normal trailing root
    by blast
qed

text \<open>
  The walk from \<^verbatim>\<open>/opt/runtime/bin\<close>, given as it is and given as \<^verbatim>\<open>./bin\<close> in the
  working directory \<^verbatim>\<open>/opt/runtime\<close>: three candidates, three probed directories.
\<close>

theorem C6_ancestor_walk_probes_witness:
  "search_for_prefix build_example calculate_example (pathconfig_example ''python'')
      (world_of_files [] []) ''/opt/runtime/bin'' 1025 [] =
     (Inr (''/usr/local/lib/python3.9'', 0),
      [Ev_stat ''/opt/runtime/bin/Modules/Setup.local'',
       Ev_stat ''/opt/runtime/bin/lib/python3.9/os.py'',
       Ev_stat ''/opt/runtime/bin/lib/python3.9/os.pyc'',
       Ev_stat ''/opt/runtime/lib/python3.9/os.py'',
       Ev_stat ''/opt/runtime/lib/python3.9/os.pyc'',
       Ev_stat ''/opt/lib/python3.9/os.py'',
       Ev_stat ''/opt/lib/python3.9/os.pyc'',
       Ev_stat ''/usr/local/lib/python3.9/os.py'',
       Ev_stat ''/usr/local/lib/python3.9/os.pyc'']) \<and>
   spec_ancestors ''/opt/runtime/bin'' = walk_candidates [''opt'', ''runtime'', ''bin''] \<and>
   walk_candidates [''opt'', ''runtime'', ''bin''] = [''/opt/runtime/bin'', ''/opt/runtime'', ''/opt''] \<and>
   length (spec_ancestors ''/opt/runtime/bin'') = 3 \<and>
   distinct (map (\<lambda>c. spec_join c ''lib/python3.9'') (spec_ancestors ''/opt/runtime/bin'')) \<and>
   search_for_prefix build_example calculate_example (pathconfig_example ''python'')
      (world_in_directory ''/opt/runtime'') ''./bin'' 1025 [] =
     (Inr (''/usr/local/lib/python3.9'', 0),
      [Ev_stat ''./bin/Modules/Setup.local'',
       Ev_getcwd,
       Ev_stat ''/opt/runtime/bin/lib/python3.9/os.py'',
       Ev_stat ''/opt/runtime/bin/lib/python3.9/os.pyc'',
       Ev_stat ''/opt/runtime/lib/python3.9/os.py'',
       Ev_stat ''/opt/runtime/lib/python3.9/os.pyc'',
       Ev_stat ''/opt/lib/python3.9/os.py'',
       Ev_stat ''/opt/lib/python3.9/os.pyc'',
       Ev_stat ''/usr/local/lib/python3.9/os.py'',
       Ev_stat ''/usr/local/lib/python3.9/os.pyc''])"
proof -
  have home: "p_home (pathconfig_example ''python'') = None"
    by (simp add: pathconfig_example_def)
  have segs: "[''opt'', ''runtime'', ''bin''] \<noteq> [] \<and>
    (\<forall>s\<in>set [''opt'', ''runtime'', ''bin'']. s \<noteq> [] \<and> SEP \<notin> set s) \<and>
    ''/opt/runtime/bin'' = path_of_segments [''opt'', ''runtime'', ''bin'']"
    by (simp add: SEP_def path_of_segments_def)
  have start: "''/opt/runtime/bin'' = spec_absolutize build_example (world_of_files [] []) ''/opt/runtime/bin''"
    by (simp add: spec_absolutize_def SEP_def)
  have no_regular: "\<not> is_regular (world_of_files [] []) p" for p
    by (simp add: is_regular_def world_of_files_def)
  have absent: "\<not> landmark_found (world_of_files [] []) dir" for dir
    by (simp add: landmark_found_def no_regular)
  have lib: "\<not> Py_isabs (c_lib_python calculate_example)"
    by (simp add: Py_isabs_iff calculate_example_def SEP_def)
  have fits:
    "length ''/opt/runtime/bin'' + length (c_lib_python calculate_example) + 9
       \<le> MAXPATHLEN build_example"
    "length ''/opt/runtime/bin'' + 20 \<le> MAXPATHLEN build_example"
    "length (c_prefix calculate_example) + length (c_lib_python calculate_example) + 9
       \<le> MAXPATHLEN build_example"
    by (simp_all add: calculate_example_def build_example_def)
  have cands: "walk_candidates [''opt'', ''runtime'', ''bin''] =
      [''/opt/runtime/bin'', ''/opt/runtime'', ''/opt'']"
    by code_simp
  have probes:
    "landmark_probe (spec_join ''/opt/runtime/bin'' ''lib/python3.9'') =
       [Ev_stat ''/opt/runtime/bin/lib/python3.9/os.py'',
        Ev_stat ''/opt/runtime/bin/lib/python3.9/os.pyc'']"
    "landmark_probe (spec_join ''/opt/runtime'' ''lib/python3.9'') =
       [Ev_stat ''/opt/runtime/lib/python3.9/os.py'',
        Ev_stat ''/opt/runtime/lib/python3.9/os.pyc'']"
    "landmark_probe (spec_join ''/opt'' ''lib/python3.9'') =
       [Ev_stat ''/opt/lib/python3.9/os.py'', Ev_stat ''/opt/lib/python3.9/os.pyc'']"
    "landmark_probe (spec_join ''/usr/local'' ''lib/python3.9'') =
       [Ev_stat ''/usr/local/lib/python3.9/os.py'', Ev_stat ''/usr/local/lib/python3.9/os.pyc'']"
    "spec_join ''/opt/runtime/bin'' ''Modules/Setup.local'' =
       ''/opt/runtime/bin/Modules/Setup.local''"
    "spec_join ''/usr/local'' ''lib/python3.9'' = ''/usr/local/lib/python3.9''"
    "landmark_probe ''/usr/local/lib/python3.9'' =
       [Ev_stat ''/usr/local/lib/python3.9/os.py'', Ev_stat ''/usr/local/lib/python3.9/os.pyc'']"
    "Py_isabs ''/opt/runtime/bin''"
    by code_simp+
  have start': "''/opt/runtime/bin'' =
      spec_absolutize build_example (world_in_directory ''/opt/runtime'') ''./bin''"
    by code_simp
  have no_regular': "\<not> is_regular (world_in_directory ''/opt/runtime'') p" for p
    by (simp add: is_regular_def world_in_directory_def world_of_files_def)
  have absent': "\<not> landmark_found (world_in_directory ''/opt/runtime'') dir" for dir
    by (simp add: landmark_found_def no_regular')
  have fits': "length ''./bin'' + 20 \<le> MAXPATHLEN build_example"
    by (simp add: build_example_def)
  have rel: "\<not> Py_isabs ''./bin''"
    "spec_join ''./bin'' ''Modules/Setup.local'' = ''./bin/Modules/Setup.local''"
    by code_simp+
  note absolute = C6_ancestor_walk_probes [OF home no_regular absent lib start fits, of "[]"]
  note relative =
    C6_ancestor_walk_probes [OF home no_regular' absent' lib start' fits(1) fits' fits(3), of "[]"]
  note normal = absolute [THEN conjunct2, THEN conjunct2, THEN conjunct2, THEN conjunct2,
      THEN conjunct2, THEN conjunct2, THEN conjunct1, rule_format, OF segs]
  from normal have anc: "spec_ancestors ''/opt/runtime/bin'' =
      [''/opt/runtime/bin'', ''/opt/runtime'', ''/opt'']"
    by (simp add: cands)
  from absolute [THEN conjunct1]
  have r1: "search_for_prefix build_example calculate_example (pathconfig_example ''python'')
      (world_of_files [] []) ''/opt/runtime/bin'' 1025 [] =
     (Inr (''/usr/local/lib/python3.9'', 0),
      [Ev_stat ''/opt/runtime/bin/Modules/Setup.local'',
       Ev_stat ''/opt/runtime/bin/lib/python3.9/os.py'',
       Ev_stat ''/opt/runtime/bin/lib/python3.9/os.pyc'',
       Ev_stat ''/opt/runtime/lib/python3.9/os.py'',
       Ev_stat ''/opt/runtime/lib/python3.9/os.pyc'',
       Ev_stat ''/opt/lib/python3.9/os.py'',
       Ev_stat ''/opt/lib/python3.9/os.pyc'',
       Ev_stat ''/usr/local/lib/python3.9/os.py'',
       Ev_stat ''/usr/local/lib/python3.9/os.pyc''])"
    by (simp add: anc probes calculate_example_def build_example_def)
  from relative [THEN conjunct1]
  have r2: "search_for_prefix build_example calculate_example (pathconfig_example ''python'')
      (world_in_directory ''/opt/runtime'') ''./bin'' 1025 [] =
     (Inr (''/usr/local/lib/python3.9'', 0),
      [Ev_stat ''./bin/Modules/Setup.local'',
       Ev_getcwd,
       Ev_stat ''/opt/runtime/bin/lib/python3.9/os.py'',
       Ev_stat ''/opt/runtime/bin/lib/python3.9/os.pyc'',
       Ev_stat ''/opt/runtime/lib/python3.9/os.py'',
       Ev_stat ''/opt/runtime/lib/python3.9/os.pyc'',
       Ev_stat ''/opt/lib/python3.9/os.py'',
       Ev_stat ''/opt/lib/python3.9/os.pyc'',
       Ev_stat ''/usr/local/lib/python3.9/os.py'',
       Ev_stat ''/usr/local/lib/python3.9/os.pyc''])"
    by (simp add: anc probes rel calculate_example_def build_example_def)
  from normal have r3: "spec_ancestors ''/opt/runtime/bin'' =
      walk_candidates [''opt'', ''runtime'', ''bin'']"
    "length (spec_ancestors ''/opt/runtime/bin'') = 3"
    "distinct (map (\<lambda>c. spec_join c ''lib/python3.9'') (spec_ancestors ''/opt/runtime/bin''))"
    by (auto simp: calculate_example_def)
  from r1 r2 r3 cands show ?thesis by (intro conjI)
qed

text \<open>
  The claim as stated fails for directories that the computation does produce. The
  executable \<^verbatim>\<open>/a//python\<close> has the directory \<^verbatim>\<open>/a/\<close>, of one segment: the walk probes
  twice, and both times \<^verbatim>\<open>/a/lib/python3.9\<close>. The root, of no segment, is probed once.
  The empty directory of an executable that was not found, in the working directory
  \<^verbatim>\<open>/home\<close>, is absolutized to \<^verbatim>\<open>/home/\<close>: again two probes of one directory.
\<close>

theorem C6_ancestor_walk_probes_counterexample:
  "fst (calculate_argv0_path build_example (world_of_files [] []) ''/a//python'' 1025 []) =
     Inr ''/a/'' \<and>
   search_for_prefix build_example calculate_example (pathconfig_example ''python'')
      (world_of_files [] []) ''/a/'' 1025 [] =
     (Inr (''/usr/local/lib/python3.9'', 0),
      [Ev_stat ''/a/Modules/Setup.local'',
       Ev_stat ''/a/lib/python3.9/os.py'',
       Ev_stat ''/a/lib/python3.9/os.pyc'',
       Ev_stat ''/a/lib/python3.9/os.py'',
       Ev_stat ''/a/lib/python3.9/os.pyc'',
       Ev_stat ''/usr/local/lib/python3.9/os.py'',
       Ev_stat ''/usr/local/lib/python3.9/os.pyc'']) \<and>
   search_for_prefix build_example calculate_example (pathconfig_example ''python'')
      (world_of_files [] []) ''/'' 1025 [] =
     (Inr (''/usr/local/lib/python3.9'', 0),
      [Ev_stat ''/Modules/Setup.local'',
       Ev_stat ''/lib/python3.9/os.py'',
       Ev_stat ''/lib/python3.9/os.pyc'',
       Ev_stat ''/usr/local/lib/python3.9/os.py'',
       Ev_stat ''/usr/local/lib/python3.9/os.pyc'']) \<and>
   search_for_prefix build_example calculate_example (pathconfig_example ''python'')
      (world_in_directory ''/home'') [] 1025 [] =
     (Inr (''/usr/local/lib/python3.9'', 0),
      [Ev_stat ''Modules/Setup.local'',
       Ev_getcwd,
       Ev_stat ''/home/lib/python3.9/os.py'',
       Ev_stat ''/home/lib/python3.9/os.pyc'',
       Ev_stat ''/home/lib/python3.9/os.py'',
       Ev_stat ''/home/lib/python3.9/os.pyc'',
       Ev_stat ''/usr/local/lib/python3.9/os.py'',
       Ev_stat ''/usr/local/lib/python3.9/os.pyc''])"
  by code_simp

subsection \<open>The redirection file\<close>


lemma length_truncate_to_parent_le: "length (truncate_to_parent p) \<le> length p"
  using length_reduce_less [of p]
  by (cases "p = []") (simp_all add: reduce_eq_truncate_to_parent [symmetric] reduce_def)












subsection \<open>Symbolic links\<close>

text \<open>
  C3. \<^verbatim>\<open>resolve_symlinks\<close> reads at most 40 links: on a chain of 39 it returns without an
  exception and leaves the final target, which is no link; on a chain of 41 it stops after
  its 40th \<^verbatim>\<open>readlink\<close> with the error \<^verbatim>\<open>maximum number of symbolic links reached\<close>.
  Its caller drops that status: \<^verbatim>\<open>calculate_argv0_path\<close> goes on with the directory of the
  name reached, and \<^verbatim>\<open>calculate_path\<close> ends without an exception.
\<close>

theorem C3_symlink_error_dropped:
  "fst (resolve_symlinks build_example (world_symlink_chain 39) (symlink_name 1) 1025 []) = None \<and>
   fst (snd (resolve_symlinks build_example (world_symlink_chain 39) (symlink_name 1) 1025 []))
     = symlink_name 40 \<and>
   wreadlink (world_symlink_chain 39) (symlink_name 40) = None \<and>
   fst (resolve_symlinks build_example (world_symlink_chain 41) (symlink_name 1) 1025 []) =
     Some (PyStatus_ERR ''maximum number of symbolic links reached'') \<and>
   length (snd (snd (resolve_symlinks build_example (world_symlink_chain 41) (symlink_name 1)
     1025 []))) = 40 \<and>
   fst (calculate_argv0_path build_example (world_symlink_chain 41) (symlink_name 1) 1025 []) =
     Inr ''/bin'' \<and>
   fst (calculate_path build_example calculate_example (pathconfig_example (symlink_name 1))
     (world_symlink_chain 41) []) = None"
  by code_simp

subsection \<open>Fields that the caller has set\<close>

lemma frame_refl: "frame pc pc"
  by (simp add: frame_def)

lemma frame_trans: "frame a b \<Longrightarrow> frame b c \<Longrightarrow> frame a c"
  by (auto simp: frame_def)

lemma step_module_search_path:
  assumes "(if p_module_search_path pc = None
            then calculate_module_search_path c pc w p e z else (None, pc)) = (st, pc')"
  shows "frame pc pc' \<and> p_program_full_path pc' = p_program_full_path pc \<and>
         (st = None \<longrightarrow> p_module_search_path pc' \<noteq> None)"
  using assms
  by (auto simp: frame_def calculate_module_search_path_def Let_def split: if_splits)

lemma step_prefix:
  assumes "(if p_prefix pc = None then calculate_set_prefix c pc w p else (None, pc)) = (st, pc')"
  shows "frame pc pc' \<and> p_program_full_path pc' = p_program_full_path pc \<and>
         (st = None \<longrightarrow> p_prefix pc' \<noteq> None)"
  using assms
  by (auto simp: frame_def calculate_set_prefix_def RawWcsdup_def Let_def split: if_splits)

lemma step_exec_prefix:
  assumes "(if p_exec_prefix pc = None then calculate_set_exec_prefix c pc w p else (None, pc))
             = (st, pc')"
  shows "frame pc pc' \<and> p_program_full_path pc' = p_program_full_path pc \<and>
         (st = None \<longrightarrow> p_exec_prefix pc' \<noteq> None)"
  using assms
  by (auto simp: frame_def calculate_set_exec_prefix_def RawWcsdup_def Let_def split: if_splits)

lemma calculate_path_outputs_frame:
  assumes "calculate_path_outputs c pc w p e z = (st, pc')"
  shows "frame pc pc' \<and> p_program_full_path pc' = p_program_full_path pc \<and>
     (st = None \<longrightarrow> p_module_search_path pc' \<noteq> None \<and> p_prefix pc' \<noteq> None \<and>
        p_exec_prefix pc' \<noteq> None)"
proof -
  obtain st1 pc1 where s1: "(if p_module_search_path pc = None
            then calculate_module_search_path c pc w p e z else (None, pc)) = (st1, pc1)"
    by (cases "if p_module_search_path pc = None
            then calculate_module_search_path c pc w p e z else (None, pc)") auto
  note f1 = step_module_search_path [OF s1]
  show ?thesis
  proof (cases st1)
    case (Some x)
    with assms s1 have "st = Some x" "pc' = pc1"
      by (simp_all add: calculate_path_outputs_def)
    with f1 show ?thesis by simp
  next
    case None
    obtain st2 pc2 where s2: "(if p_prefix pc1 = None then calculate_set_prefix c pc1 w p
        else (None, pc1)) = (st2, pc2)"
      by (cases "if p_prefix pc1 = None then calculate_set_prefix c pc1 w p
        else (None, pc1)") auto
    note f2 = step_prefix [OF s2]
    show ?thesis
    proof (cases st2)
      case (Some x)
      with assms s1 s2 None have "st = Some x" "pc' = pc2"
        by (simp_all add: calculate_path_outputs_def)
      with f1 f2 show ?thesis by (auto intro: frame_trans)
    next
      case n2: None
      with assms s1 s2 None have s3: "(if p_exec_prefix pc2 = None
          then calculate_set_exec_prefix c pc2 w e else (None, pc2)) = (st, pc')"
        by (simp add: calculate_path_outputs_def)
      note f3 = step_exec_prefix [OF s3]
      have fr: "frame pc pc'"
        using f1 f2 f3 by (blast intro: frame_trans)
      from f1 f2 f3 None n2 have
        "p_module_search_path pc1 \<noteq> None" "p_prefix pc2 \<noteq> None" "frame pc1 pc2" "frame pc2 pc'"
        by simp_all
      then have "p_module_search_path pc' \<noteq> None" "p_prefix pc' \<noteq> None"
        by (auto simp: frame_def)
      with fr f1 f2 f3 show ?thesis by simp
    qed
  qed
qed

lemma calculate_path_rest_frame:
  assumes "calculate_path_rest b c pc w pfp tr = (st, pc', tr')"
  shows "frame pc pc' \<and> p_program_full_path pc' = p_program_full_path pc \<and>
     (st = None \<longrightarrow> p_module_search_path pc' \<noteq> None \<and> p_prefix pc' \<noteq> None \<and>
        p_exec_prefix pc' \<noteq> None)"
  using assms
  by (auto simp: calculate_path_rest_def Let_def frame_refl
      split: prod.splits sum.splits dest!: calculate_path_outputs_frame)

lemma calculate_program_frame:
  assumes "calculate_program b c pc w tr = (st, pc', tr')"
  shows "p_program_name pc' = p_program_name pc \<and> p_home pc' = p_home pc \<and>
     p_module_search_path pc' = p_module_search_path pc \<and> p_prefix pc' = p_prefix pc \<and>
     p_exec_prefix pc' = p_exec_prefix pc \<and>
     (st = None \<longrightarrow> p_program_full_path pc' \<noteq> None)"
  using assms
  by (auto simp: calculate_program_def RawWcsdup_def Let_def
      split: if_splits sum.splits prod.splits)

text \<open>
  C9. Whatever status \<^verbatim>\<open>calculate_path\<close> returns, each of the four output fields that was
  set when it started has the value it had, and the program name and the home are untouched;
  when it returns without an exception all four fields are set, so the fields it filled in
  are fields that were \<^verbatim>\<open>NULL\<close>. With the full program path given, the executable is not
  located again: the computation is the part after \<^verbatim>\<open>calculate_program\<close>.
\<close>

theorem C9_preset_fields_kept:
  assumes "calculate_path b calculate pathconfig w tr = (status, pathconfig', tr')"
  shows "(p_program_full_path pathconfig \<noteq> None \<longrightarrow>
            p_program_full_path pathconfig' = p_program_full_path pathconfig) \<and>
         (p_module_search_path pathconfig \<noteq> None \<longrightarrow>
            p_module_search_path pathconfig' = p_module_search_path pathconfig) \<and>
         (p_prefix pathconfig \<noteq> None \<longrightarrow> p_prefix pathconfig' = p_prefix pathconfig) \<and>
         (p_exec_prefix pathconfig \<noteq> None \<longrightarrow>
            p_exec_prefix pathconfig' = p_exec_prefix pathconfig) \<and>
         p_program_name pathconfig' = p_program_name pathconfig \<and>
         p_home pathconfig' = p_home pathconfig \<and>
         (status = None \<longrightarrow>
            p_program_full_path pathconfig' \<noteq> None \<and> p_module_search_path pathconfig' \<noteq> None \<and>
            p_prefix pathconfig' \<noteq> None \<and> p_exec_prefix pathconfig' \<noteq> None) \<and>
         (\<forall>program_full_path. p_program_full_path pathconfig = Some program_full_path \<longrightarrow>
            calculate_path b calculate pathconfig w tr =
              calculate_path_rest b calculate pathconfig w program_full_path tr)"
proof (cases "p_program_full_path pathconfig")
  case (Some pfp)
  with assms have r: "calculate_path_rest b calculate pathconfig w pfp tr = (status, pathconfig', tr')"
    by (simp add: calculate_path_def)
  have e: "calculate_path b calculate pathconfig w tr =
      calculate_path_rest b calculate pathconfig w pfp tr"
    using Some by (simp add: calculate_path_def)
  from calculate_path_rest_frame [OF r] Some e show ?thesis
    by (auto simp: frame_def)
next
  case None
  obtain st1 pc1 tr1 where p: "calculate_program b calculate pathconfig w tr = (st1, pc1, tr1)"
    by (cases "calculate_program b calculate pathconfig w tr") auto
  note f1 = calculate_program_frame [OF p]
  show ?thesis
  proof (cases st1)
    case (Some x)
    with assms None p have "status = Some x" "pathconfig' = pc1"
      by (simp_all add: calculate_path_def)
    with f1 None show ?thesis by auto
  next
    case n: None
    with f1 obtain pfp where pfp: "p_program_full_path pc1 = Some pfp" by auto
    with assms None p n have
      r: "calculate_path_rest b calculate pc1 w pfp tr1 = (status, pathconfig', tr')"
      by (simp add: calculate_path_def)
    from calculate_path_rest_frame [OF r] f1 pfp None show ?thesis
      by (auto simp: frame_def)
  qed
qed


theorem C9_preset_fields_kept_witness:
  "fst (calculate_path build_example calculate_example pathconfig_preset world_installed []) = None \<and>
   p_program_full_path
     (fst (snd (calculate_path build_example calculate_example pathconfig_preset world_installed [])))
     = Some ''/opt/runtime/bin/python'' \<and>
   p_prefix
     (fst (snd (calculate_path build_example calculate_example pathconfig_preset world_installed [])))
     = Some ''/custom'' \<and>
   p_exec_prefix
     (fst (snd (calculate_path build_example calculate_example pathconfig_preset world_installed [])))
     = Some ''/opt/runtime'' \<and>
   p_module_search_path
     (fst (snd (calculate_path build_example calculate_example pathconfig_preset world_installed [])))
     \<noteq> None"
proof -
  let ?r = "calculate_path build_example calculate_example pathconfig_preset world_installed []"
  have run: "?r = (fst ?r, fst (snd ?r), snd (snd ?r))"
    by simp
  have ok: "fst ?r = None"
    by code_simp
  have ex: "p_exec_prefix (fst (snd ?r)) = Some ''/opt/runtime''"
    by code_simp
  have pre: "p_program_full_path pathconfig_preset = Some ''/opt/runtime/bin/python''"
    "p_prefix pathconfig_preset = Some ''/custom''"
    by (simp_all add: pathconfig_preset_def)
  from C9_preset_fields_kept [OF run] have
    "(p_program_full_path pathconfig_preset \<noteq> None \<longrightarrow>
        p_program_full_path (fst (snd ?r)) = p_program_full_path pathconfig_preset) \<and>
     (p_prefix pathconfig_preset \<noteq> None \<longrightarrow> p_prefix (fst (snd ?r)) = p_prefix pathconfig_preset) \<and>
     (fst ?r = None \<longrightarrow> p_module_search_path (fst (snd ?r)) \<noteq> None)"
    by blast
  with pre ok ex show ?thesis
    by simp
qed

subsection \<open>The assembled module search path\<close>

lemma wcschr_Nil: "wcschr [] c = None"
  by (simp add: wcschr_def)

lemma wcschr_Cons:
  "wcschr (x # xs) c =
     (if x = c then Some 0 else (case wcschr xs c of None \<Rightarrow> None | Some k \<Rightarrow> Some (Suc k)))"
  by (simp add: wcschr_def)

lemma split_entries_not_Nil: "split_entries d s \<noteq> []"
  by (induction s) (auto split: list.splits)

lemma split_entries_unfold:
  "split_entries d s =
     (case wcschr s d of
        None \<Rightarrow> [s]
      | Some k \<Rightarrow> take k s # split_entries d (drop (k + 1) s))"
proof (induction s)
  case Nil
  show ?case by (simp add: wcschr_Nil)
next
  case (Cons c cs)
  show ?case
  proof (cases "c = d")
    case True
    then show ?thesis by (simp add: wcschr_Cons)
  next
    case False
    with Cons show ?thesis
      by (cases "wcschr cs d") (simp_all add: wcschr_Cons)
  qed
qed

lemma join_entries_Cons:
  "es \<noteq> [] \<Longrightarrow> join_entries d (e # es) = e @ d # join_entries d es"
  by (cases es) simp_all

lemma join_entries_append:
  "xs \<noteq> [] \<Longrightarrow> ys \<noteq> [] \<Longrightarrow>
   join_entries d (xs @ ys) = join_entries d xs @ d # join_entries d ys"
proof (induction xs)
  case Nil
  then show ?case by simp
next
  case (Cons x xs)
  show ?case
  proof (cases "xs = []")
    case True
    with Cons.prems show ?thesis by (simp add: join_entries_Cons)
  next
    case False
    with Cons show ?thesis by (simp add: join_entries_Cons)
  qed
qed

lemma wcschr_Some:
  "wcschr s c = Some k \<Longrightarrow> k < length s \<and> s ! k = c \<and> c \<notin> set (take k s)"
proof (induction s arbitrary: k)
  case Nil
  then show ?case by (simp add: wcschr_Nil)
next
  case (Cons x xs)
  then show ?case
    by (cases k) (auto simp: wcschr_Cons split: if_splits option.splits)
qed

lemma defpath_merge_spec:
  "prefix \<noteq> [] \<Longrightarrow>
   defpath_merge prefix defpath buf =
     buf @ join_entries DELIM (map (spec_default_entry prefix) (split_entries DELIM defpath))"
proof (induction "length defpath" arbitrary: defpath buf rule: less_induct)
  case less
  from less.prems have pl: "Suc 0 \<le> length prefix" by (cases prefix) simp_all
  show ?case
  proof (cases "wcschr defpath DELIM")
    case None
    with less.prems pl show ?thesis
      by (subst defpath_merge.simps, subst split_entries_unfold)
        (auto simp: Let_def spec_default_entry_def Py_isabs_iff last_conv_nth)
  next
    case (Some k)
    from wcschr_Some [OF Some] have k: "k < length defpath" "defpath ! k = DELIM" by simp_all
    then have tk: "take (k + 1) defpath = take k defpath @ [DELIM]"
      by (simp add: take_Suc_conv_app_nth)
    have abs: "Py_isabs defpath \<longleftrightarrow> Py_isabs (take k defpath)"
      using k by (cases defpath; cases k) (auto simp: Py_isabs_iff DELIM_def SEP_def)
    have emp: "wchar_at defpath 0 \<noteq> DELIM \<longleftrightarrow> take k defpath \<noteq> []"
      using k wcschr_Some [OF Some]
      by (cases defpath; cases k) (auto simp: wchar_at_def)
    have shorter: "length (drop (k + 1) defpath) < length defpath"
      using k by simp
    have rest: "map (spec_default_entry prefix) (split_entries DELIM (drop (k + 1) defpath)) \<noteq> []"
      by (simp add: split_entries_not_Nil)
    show ?thesis
      apply (subst defpath_merge.simps)
      apply (subst split_entries_unfold)
      apply (simp only: Some option.case Let_def less.hyps [OF shorter less.prems] tk abs emp
          list.map join_entries_Cons [OF rest])
      using less.prems pl
      apply (auto simp: spec_default_entry_def Py_isabs_iff last_conv_nth)
      done
  qed
qed

lemma calculate_module_search_path_spec:
  assumes "prefix \<noteq> []"
  shows "calculate_module_search_path calculate pathconfig w prefix exec_prefix zip_path =
     (if RawMalloc_ok w (module_search_path_bufsz calculate prefix exec_prefix zip_path)
      then (None, pathconfig\<lparr>p_module_search_path :=
              Some (spec_module_search_path (c_pythonpath_env calculate) zip_path
                      (c_pythonpath calculate) prefix exec_prefix)\<rparr>)
      else (Some PyStatus_NO_MEMORY, pathconfig))"
proof -
  let ?entries = "map (spec_default_entry prefix) (split_entries DELIM (c_pythonpath calculate))"
  have ne: "?entries \<noteq> []" by (simp add: split_entries_not_Nil)
  have j1: "join_entries DELIM ([zip_path] @ ?entries @ [exec_prefix]) =
      zip_path @ DELIM # join_entries DELIM ?entries @ DELIM # exec_prefix"
    using ne by (simp add: join_entries_Cons join_entries_append)
  have j2: "join_entries DELIM ([e] @ [zip_path] @ ?entries @ [exec_prefix]) =
      e @ DELIM # zip_path @ DELIM # join_entries DELIM ?entries @ DELIM # exec_prefix" for e
    using ne by (simp add: join_entries_Cons join_entries_append)
  show ?thesis
    using j1 j2
    by (cases "c_pythonpath_env calculate")
      (simp_all add: calculate_module_search_path_def Let_def defpath_merge_spec [OF assms]
        spec_module_search_path_def)
qed

lemma joinpath_nonempty: "joinpath p c n = Inr r \<Longrightarrow> c \<noteq> [] \<Longrightarrow> r \<noteq> []"
  by (auto simp: joinpath_eq_spec_join spec_join_def split: if_splits)

lemma walk_found_nonempty:
  "search_for_prefix_walk b calculate w prefix prefix_len tr = (Inr (Some (cand, found)), tr')
   \<Longrightarrow> c_lib_python calculate \<noteq> [] \<Longrightarrow> cand \<noteq> []"
proof (induction "length prefix" arbitrary: prefix tr rule: less_induct)
  case less
  from less.prems show ?case
    by (subst (asm) search_for_prefix_walk.simps)
      (auto simp: Let_def split: sum.splits prod.splits bool.splits if_splits
        dest!: less.hyps [OF length_reduce_take_less] dest: joinpath_nonempty)
qed

lemma build_found_nonempty:
  "search_for_prefix_build b w argv0_path prefix_len tr = (Inr (Some (prefix, found)), tr')
   \<Longrightarrow> prefix \<noteq> []"
  by (auto simp: search_for_prefix_build_def Let_def safe_wcscpy_def
      split: sum.splits prod.splits bool.splits if_splits option.splits
      dest: joinpath_nonempty)

lemma default_nonempty:
  "search_for_prefix_default b calculate w prefix_len tr = (Inr (prefix, found), tr')
   \<Longrightarrow> c_lib_python calculate \<noteq> [] \<Longrightarrow> prefix \<noteq> []"
  by (auto simp: search_for_prefix_default_def Let_def safe_wcscpy_def
      split: sum.splits prod.splits bool.splits if_splits
      dest: joinpath_nonempty)

lemma home_nonempty:
  "search_for_prefix_home calculate home prefix_len = Inr (prefix, found)
   \<Longrightarrow> c_lib_python calculate \<noteq> [] \<Longrightarrow> prefix \<noteq> []"
  by (auto simp: search_for_prefix_home_def Let_def safe_wcscpy_def
      split: sum.splits prod.splits if_splits
      dest: joinpath_nonempty)

lemma search_for_prefix_nonempty:
  "search_for_prefix b calculate pathconfig w argv0_path prefix_len tr = (Inr (prefix, found), tr')
   \<Longrightarrow> c_lib_python calculate \<noteq> [] \<Longrightarrow> prefix \<noteq> []"
  by (auto simp: search_for_prefix_def
      split: sum.splits prod.splits option.splits
      dest: home_nonempty build_found_nonempty walk_found_nonempty default_nonempty)

lemma calculate_prefix_result:
  assumes "calculate_prefix b calculate pathconfig w argv0_path prefix_len tr =
             (Inr (prefix, calculate1), tr')"
    and "c_lib_python calculate \<noteq> []"
  shows "prefix \<noteq> [] \<and> (\<exists>found. calculate1 = calculate\<lparr>c_prefix_found := found\<rparr>)"
  using assms
  by (auto simp: calculate_prefix_def Let_def safe_wcscpy_def
      split: sum.splits prod.splits if_splits
      dest: search_for_prefix_nonempty joinpath_nonempty)

lemma calculate_exec_prefix_result:
  assumes "calculate_exec_prefix b calculate pathconfig w argv0_path n tr =
             (Inr (exec_prefix, calculate2), tr')"
  shows "\<exists>found. calculate2 = calculate\<lparr>c_exec_prefix_found := found\<rparr>"
  using assms
  by (auto simp: calculate_exec_prefix_def Let_def
      split: sum.splits prod.splits if_splits)


lemma calculate_path_rest_ok:
  assumes "calculate_path_rest b c pc w pfp tr = (None, pc', tr')"
  shows "\<exists>argv0_path tr2 prefix c1 tr3 zip_path exec_prefix c2 tr4.
     calculate_prefix b c pc w argv0_path (MAXPATHLEN b + 1) tr2 = (Inr (prefix, c1), tr3) \<and>
     calculate_zip_path b c1 prefix (MAXPATHLEN b + 1) = Inr zip_path \<and>
     calculate_exec_prefix b c1 pc w argv0_path (MAXPATHLEN b + 1) tr3 =
       (Inr (exec_prefix, c2), tr4) \<and>
     calculate_path_outputs c2 pc w prefix exec_prefix zip_path = (None, pc')"
  using assms
  by (simp add: calculate_path_rest_def Let_def split: prod.splits sum.splits) blast

lemma calculate_path_outputs_search_path:
  assumes out: "calculate_path_outputs c pc w prefix exec_prefix zip_path = (None, pc')"
    and unset: "p_module_search_path pc = None"
    and prefix: "prefix \<noteq> []"
  shows "p_module_search_path pc' =
     Some (spec_module_search_path (c_pythonpath_env c) zip_path (c_pythonpath c) prefix
             exec_prefix)"
proof -
  let ?S = "spec_module_search_path (c_pythonpath_env c) zip_path (c_pythonpath c) prefix
             exec_prefix"
  let ?pc1 = "pc\<lparr>p_module_search_path := Some ?S\<rparr>"
  have alloc: "RawMalloc_ok w (module_search_path_bufsz c prefix exec_prefix zip_path)"
    using out unset
    by (auto simp: calculate_path_outputs_def calculate_module_search_path_spec [OF prefix]
        split: if_splits)
  then have m: "calculate_module_search_path c pc w prefix exec_prefix zip_path = (None, ?pc1)"
    by (simp add: calculate_module_search_path_spec [OF prefix])
  obtain st2 pc2 where s2: "(if p_prefix ?pc1 = None then calculate_set_prefix c ?pc1 w prefix
        else (None, ?pc1)) = (st2, pc2)"
    by (cases "if p_prefix ?pc1 = None then calculate_set_prefix c ?pc1 w prefix
        else (None, ?pc1)") auto
  from out unset m s2 have st2: "st2 = None"
    by (cases st2) (simp_all add: calculate_path_outputs_def)
  with out unset m s2 have s3: "(if p_exec_prefix pc2 = None
      then calculate_set_exec_prefix c pc2 w exec_prefix else (None, pc2)) = (None, pc')"
    by (simp add: calculate_path_outputs_def)
  from step_prefix [OF s2] step_exec_prefix [OF s3] show ?thesis
    by (simp add: frame_def)
qed

text \<open>
  The buffer that \<^verbatim>\<open>calculate_module_search_path\<close> allocates holds the string it writes
  and its terminator, so every \<^verbatim>\<open>wcscat\<close> of the function stays within the buffer.
\<close>

lemma defpath_bufsz_add:
  "defpath_bufsz prefixsz defpath (a + k) = defpath_bufsz prefixsz defpath a + k"
proof (induction "length defpath" arbitrary: defpath a rule: less_induct)
  case less
  show ?case
  proof (cases "wcschr defpath DELIM")
    case None
    then show ?thesis
      by (subst defpath_bufsz.simps, subst (2) defpath_bufsz.simps) (simp add: Let_def)
  next
    case (Some d)
    let ?p = "if \<not> Py_isabs defpath then prefixsz else 0"
    from wcschr_Some [OF Some] have sh: "length (drop (d + 1) defpath) < length defpath"
      by auto
    have l: "defpath_bufsz prefixsz defpath x =
        defpath_bufsz prefixsz (drop (d + 1) defpath) (x + ?p + (d + 1))" for x
      using Some by (subst defpath_bufsz.simps) (simp add: Let_def)
    have e: "(a + k) + ?p + (d + 1) = (a + ?p + (d + 1)) + k"
      by simp
    show ?thesis
      by (simp only: l e less.hyps [OF sh])
  qed
qed

lemma defpath_bufsz_mono:
  "a \<le> a' \<Longrightarrow> defpath_bufsz prefixsz defpath a \<le> defpath_bufsz prefixsz defpath a'"
  using defpath_bufsz_add [of prefixsz defpath a "a' - a"] by simp

lemma defpath_merge_fits:
  "length (defpath_merge prefix defpath buf) + 1 \<le>
     defpath_bufsz (length prefix + 1) defpath (length buf)"
proof (induction "length defpath" arbitrary: defpath buf rule: less_induct)
  case less
  show ?case
  proof (cases "wcschr defpath DELIM")
    case None
    then show ?thesis
      by (subst defpath_merge.simps, subst defpath_bufsz.simps) (simp add: Let_def)
  next
    case (Some d)
    from wcschr_Some [OF Some] have d: "d < length defpath" by simp
    then have sh: "length (drop (d + 1) defpath) < length defpath" by auto
    have m: "min (length defpath) (Suc d) = Suc d" using d by simp
    show ?thesis
      apply (subst defpath_merge.simps)
      apply (subst defpath_bufsz.simps)
      apply (simp only: Some option.case Let_def)
      apply (rule order_trans [OF less.hyps [OF sh]])
      apply (rule defpath_bufsz_mono)
      apply (simp add: m)
      done
  qed
qed

lemma module_search_path_fits:
  assumes "calculate_module_search_path calculate pathconfig w prefix exec_prefix zip_path =
             (None, pathconfig')"
  shows "\<exists>buf. p_module_search_path pathconfig' = Some buf \<and>
           length buf + 1 \<le> module_search_path_bufsz calculate prefix exec_prefix zip_path"
proof -
  have "length (defpath_merge prefix (c_pythonpath calculate) buf1) + 1 \<le>
      defpath_bufsz (length prefix + 1) (c_pythonpath calculate) 0 + length buf1" for buf1
    using defpath_merge_fits [of prefix "c_pythonpath calculate" buf1]
      defpath_bufsz_add [of "length prefix + 1" "c_pythonpath calculate" 0 "length buf1"]
    by simp
  note f = this
  show ?thesis
  proof (cases "c_pythonpath_env calculate")
    case None
    with assms f [of "zip_path @ [DELIM]"] show ?thesis
      by (auto simp: calculate_module_search_path_def module_search_path_bufsz_def Let_def
          split: if_splits)
  next
    case (Some e)
    with assms f [of "e @ [DELIM] @ zip_path @ [DELIM]"]
      defpath_bufsz_add [of "length prefix + 1" "c_pythonpath calculate" 0 "length e + 1"]
    show ?thesis
      by (auto simp: calculate_module_search_path_def module_search_path_bufsz_def Let_def
          split: if_splits)
  qed
qed

text \<open>
  C1. For a prefix that is not empty, and an allocation that succeeds,
  \<^verbatim>\<open>calculate_module_search_path\<close> stores the concatenation that the specification
  describes: the environment's search path if there is one, the archive path, each entry of
  the \<^verbatim>\<open>PYTHONPATH\<close> macro (a relative one after the prefix, with a separator unless the
  entry is empty or the prefix ends in one), and the exec-prefix, with the delimiter between
  them. In every run of \<^verbatim>\<open>calculate_path\<close> that returns without an exception and started
  with no module search path, the stored path is that concatenation for the prefix, the
  archive path and the exec-prefix that the run resolved; the resolved prefix is never empty,
  since it ends in \<^verbatim>\<open>lib/pythonX.Y\<close> or \<^verbatim>\<open>Lib\<close>.
\<close>

theorem C1_module_search_path_assembly:
  "(prefix \<noteq> [] \<longrightarrow>
    RawMalloc_ok w (module_search_path_bufsz calculate prefix exec_prefix zip_path) \<longrightarrow>
    calculate_module_search_path calculate pathconfig w prefix exec_prefix zip_path =
      (None, pathconfig\<lparr>p_module_search_path :=
         Some (spec_module_search_path (c_pythonpath_env calculate) zip_path
                 (c_pythonpath calculate) prefix exec_prefix)\<rparr>)) \<and>
   (calculate_path b calculate pathconfig w tr = (None, pathconfig', tr') \<longrightarrow>
    p_module_search_path pathconfig = None \<longrightarrow>
    c_lib_python calculate \<noteq> [] \<longrightarrow>
    (\<exists>pathconfig1 argv0_path tr2 resolved_prefix calculate1 tr3 archive_path
        resolved_exec_prefix calculate2 tr4.
       calculate_prefix b calculate pathconfig1 w argv0_path (MAXPATHLEN b + 1) tr2 =
         (Inr (resolved_prefix, calculate1), tr3) \<and>
       calculate_zip_path b calculate1 resolved_prefix (MAXPATHLEN b + 1) = Inr archive_path \<and>
       calculate_exec_prefix b calculate1 pathconfig1 w argv0_path (MAXPATHLEN b + 1) tr3 =
         (Inr (resolved_exec_prefix, calculate2), tr4) \<and>
       resolved_prefix \<noteq> [] \<and>
       p_module_search_path pathconfig' =
         Some (spec_module_search_path (c_pythonpath_env calculate) archive_path
                 (c_pythonpath calculate) resolved_prefix resolved_exec_prefix)))"
proof (intro conjI impI)
  assume "prefix \<noteq> []"
    and "RawMalloc_ok w (module_search_path_bufsz calculate prefix exec_prefix zip_path)"
  then show "calculate_module_search_path calculate pathconfig w prefix exec_prefix zip_path =
      (None, pathconfig\<lparr>p_module_search_path :=
         Some (spec_module_search_path (c_pythonpath_env calculate) zip_path
                 (c_pythonpath calculate) prefix exec_prefix)\<rparr>)"
    by (simp add: calculate_module_search_path_spec)
next
  assume run: "calculate_path b calculate pathconfig w tr = (None, pathconfig', tr')"
    and unset: "p_module_search_path pathconfig = None"
    and lib: "c_lib_python calculate \<noteq> []"
  obtain pc1 pfp tr1 where
    rest: "calculate_path_rest b calculate pc1 w pfp tr1 = (None, pathconfig', tr')"
    and unset1: "p_module_search_path pc1 = None"
  proof (cases "p_program_full_path pathconfig")
    case (Some pfp)
    with run have "calculate_path_rest b calculate pathconfig w pfp tr = (None, pathconfig', tr')"
      by (simp add: calculate_path_def)
    with unset that show ?thesis by blast
  next
    case None
    obtain st1 pc1 tr1 where p: "calculate_program b calculate pathconfig w tr = (st1, pc1, tr1)"
      by (cases "calculate_program b calculate pathconfig w tr") auto
    note f1 = calculate_program_frame [OF p]
    from run None p have st1: "st1 = None"
      by (cases st1) (simp_all add: calculate_path_def)
    with f1 obtain pfp where pfp: "p_program_full_path pc1 = Some pfp" by auto
    with run None p st1 have
      "calculate_path_rest b calculate pc1 w pfp tr1 = (None, pathconfig', tr')"
      by (simp add: calculate_path_def)
    moreover from f1 unset have "p_module_search_path pc1 = None" by simp
    ultimately show ?thesis using that by blast
  qed
  from calculate_path_rest_ok [OF rest] obtain argv0_path tr2 prefix c1 tr3 zip_path exec_prefix
    c2 tr4 where
    a: "calculate_prefix b calculate pc1 w argv0_path (MAXPATHLEN b + 1) tr2 =
          (Inr (prefix, c1), tr3)"
    and z: "calculate_zip_path b c1 prefix (MAXPATHLEN b + 1) = Inr zip_path"
    and e: "calculate_exec_prefix b c1 pc1 w argv0_path (MAXPATHLEN b + 1) tr3 =
          (Inr (exec_prefix, c2), tr4)"
    and out: "calculate_path_outputs c2 pc1 w prefix exec_prefix zip_path = (None, pathconfig')"
    by blast
  from calculate_prefix_result [OF a lib] obtain f1 where
    ne: "prefix \<noteq> []" and c1: "c1 = calculate\<lparr>c_prefix_found := f1\<rparr>" by blast
  from calculate_exec_prefix_result [OF e] obtain f2 where
    c2: "c2 = c1\<lparr>c_exec_prefix_found := f2\<rparr>" by blast
  from calculate_path_outputs_search_path [OF out unset1 ne] c1 c2 have
    "p_module_search_path pathconfig' =
       Some (spec_module_search_path (c_pythonpath_env calculate) zip_path
               (c_pythonpath calculate) prefix exec_prefix)"
    by simp
  with a z e ne show "\<exists>pathconfig1 argv0_path tr2 resolved_prefix calculate1 tr3 archive_path
        resolved_exec_prefix calculate2 tr4.
       calculate_prefix b calculate pathconfig1 w argv0_path (MAXPATHLEN b + 1) tr2 =
         (Inr (resolved_prefix, calculate1), tr3) \<and>
       calculate_zip_path b calculate1 resolved_prefix (MAXPATHLEN b + 1) = Inr archive_path \<and>
       calculate_exec_prefix b calculate1 pathconfig1 w argv0_path (MAXPATHLEN b + 1) tr3 =
         (Inr (resolved_exec_prefix, calculate2), tr4) \<and>
       resolved_prefix \<noteq> [] \<and>
       p_module_search_path pathconfig' =
         Some (spec_module_search_path (c_pythonpath_env calculate) archive_path
                 (c_pythonpath calculate) resolved_prefix resolved_exec_prefix)"
    by blast
qed

theorem C1_module_search_path_assembly_witness:
  "calculate_module_search_path calculate_assembly (pathconfig_example ''python'')
      (world_of_files [] []) ''/usr'' ''/usr/lib/py39/dynload'' ''/usr/lib/py39.zip'' =
     (None, pathconfig_example ''python''
        \<lparr>p_module_search_path :=
           Some ''/extra:/usr/lib/py39.zip:/usr/lib-dynload:/usr/lib/py39/dynload''\<rparr>) \<and>
   p_module_search_path (fst (snd (calculate_path build_example calculate_example
      (pathconfig_example ''/opt/runtime/bin/python'') world_installed []))) =
     Some ''/opt/runtime/lib/python39.zip:/opt/runtime/lib/python3.9:/opt/runtime/lib/python3.9/plat-linux:/opt/runtime/lib/python3.9/lib-dynload''"
proof -
  have ne: "''/usr'' \<noteq> []" by simp
  have alloc: "RawMalloc_ok (world_of_files [] [])
      (module_search_path_bufsz calculate_assembly ''/usr'' ''/usr/lib/py39/dynload''
         ''/usr/lib/py39.zip'')"
    by (simp add: world_of_files_def)
  have spec: "spec_module_search_path (c_pythonpath_env calculate_assembly) ''/usr/lib/py39.zip''
      (c_pythonpath calculate_assembly) ''/usr'' ''/usr/lib/py39/dynload'' =
      ''/extra:/usr/lib/py39.zip:/usr/lib-dynload:/usr/lib/py39/dynload''"
    by code_simp
  have run: "p_module_search_path (fst (snd (calculate_path build_example calculate_example
      (pathconfig_example ''/opt/runtime/bin/python'') world_installed []))) =
     Some ''/opt/runtime/lib/python39.zip:/opt/runtime/lib/python3.9:/opt/runtime/lib/python3.9/plat-linux:/opt/runtime/lib/python3.9/lib-dynload''"
    by code_simp
  from C1_module_search_path_assembly
    [where prefix = "''/usr''" and w = "world_of_files [] []" and calculate = calculate_assembly
       and exec_prefix = "''/usr/lib/py39/dynload''" and zip_path = "''/usr/lib/py39.zip''"
       and pathconfig = "pathconfig_example ''python''"]
    ne alloc spec run
  show ?thesis by simp
qed

end
